theory Spec2Isabelle
  imports Complex_Main "HOL-Library.AList" "HOL-Library.Multiset"
begin

section \<open>CineTrack: the user-state API over a JSON file, and the recommendation heuristic\<close>

text \<open>
  The server, an Express application, keeps one JSON document on disk and serves the
  user's watch states, ratings and reviews from it; the React client (\<^verbatim>\<open>src/App.tsx\<close>)
  ranks genres from the local watch state. Both are embedded here as pure functions: a
  handler takes the session's user, the request body and the file, and returns the
  response together with the file as the handler leaves it. Failures of the file system
  other than a missing file, and requests that overlap in time, are outside the embedding.
\<close>

subsection \<open>JavaScript values\<close>

text \<open>
  A JavaScript number is a finite double, an infinity or NaN. The handlers only compare
  numbers and use them as property keys, which is exact on doubles, so a finite number is
  represented by its value as a rational. \<^verbatim>\<open>JSON.parse\<close> yields an infinity for a literal
  such as \<^verbatim>\<open>1e999\<close>; \<^verbatim>\<open>Number(...)\<close> of a path segment can also yield NaN.
\<close>

datatype jsnum = Fin rat | PosInf | NegInf | NaN

datatype json =
    JNull
  | JBool bool
  | JNum jsnum
  | JStr string
  | JArr "json list"
  | JObj "(string \<times> json) list"

text \<open>
  \<^verbatim>\<open>const { movieId, status } = req.body ?? {}\<close>: a property that is absent reads as
  \<^verbatim>\<open>undefined\<close>, which is \<open>None\<close> here; so does every property of these names on a
  body that is missing, null, an array or a primitive.
\<close>

fun body_field :: "json option \<Rightarrow> string \<Rightarrow> json option" where
  "body_field (Some (JObj kvs)) k = map_of kvs k"
| "body_field _ k = None"

fun Number_isFinite :: "json option \<Rightarrow> bool" where
  "Number_isFinite (Some (JNum (Fin q))) = True"
| "Number_isFinite _ = False"

fun Number_isInteger :: "json option \<Rightarrow> bool" where
  "Number_isInteger (Some (JNum (Fin q))) = (of_int \<lfloor>q\<rfloor> = q)"
| "Number_isInteger _ = False"

text \<open>
  The value of a number and of a string. Every use below stands behind the guard
  (\<open>Number_isFinite\<close>, \<open>Number_isInteger\<close>, \<open>typeof_string\<close>) that the source has
  at the same place, so the second equations are never reached.
\<close>

fun the_number :: "json option \<Rightarrow> rat" where
  "the_number (Some (JNum (Fin q))) = q"
| "the_number _ = 0"

fun typeof_string :: "json option \<Rightarrow> bool" where
  "typeof_string (Some (JStr s)) = True"
| "typeof_string _ = False"

fun the_string :: "json option \<Rightarrow> string" where
  "the_string (Some (JStr s)) = s"
| "the_string _ = []"

text \<open>
  \<^verbatim>\<open>String.prototype.trim\<close> strips white space and line terminators from both ends. A
  \<open>char\<close> is a code unit below 256 here; the white space of that range is TAB, LF, VT, FF,
  CR, SP and NBSP.
\<close>

definition is_ws :: "char \<Rightarrow> bool" where
  "is_ws c = (c \<in> set [CHR 0x09, CHR 0x0A, CHR 0x0B, CHR 0x0C, CHR 0x0D, CHR 0x20, CHR 0xA0])"

definition trim :: "string \<Rightarrow> string" where
  "trim s = rev (dropWhile is_ws (rev (dropWhile is_ws s)))"

subsection \<open>The data model\<close>

text \<open>
  The user object that the OAuth strategy builds and the session carries
  (\<^verbatim>\<open>{ id, displayName, email, avatar }\<close>). Google's profile ids are strings of decimal
  digits; the embedding treats an id as an opaque dictionary key.
\<close>

record AuthUser =
  user_id :: string
  displayName :: string
  email :: string
  avatar :: string

text \<open>
  A user record. The handlers guard both mappings with \<^verbatim>\<open>?? {}\<close>, so either may be
  absent. A mapping keyed by movie id is a JavaScript object whose keys are the numbers'
  string forms, which are distinct for distinct finite numbers; the key is represented by
  the number. The watch state is stored as the string the request carried.
\<close>

record UserRecord =
  watchStates :: "(rat \<times> string) list option"
  ratings :: "(rat \<times> rat) list option"
  profile :: "AuthUser option"

text \<open>
  A review. Its id is the template \<^verbatim>\<open>`${movieId}-${Date.now()}`\<close>, kept as the pair;
  \<open>createdAt\<close> is the instant of \<^verbatim>\<open>new Date().toISOString()\<close> in milliseconds, which
  is what \<^verbatim>\<open>new Date(createdAt).getTime()\<close> reads back.
\<close>

record Review =
  review_id :: "rat \<times> int"
  movieId :: rat
  author :: string
  rating :: "rat option"
  content :: string
  createdAt :: int
  userId :: string

record Store =
  users :: "(string \<times> UserRecord) list"
  reviews :: "Review list"

text \<open>
  \<^verbatim>\<open>x ?? {}\<close> and \<^verbatim>\<open>x ?? []\<close> on a mapping or list that may be absent or null.
\<close>

definition or_empty :: "'a list option \<Rightarrow> 'a list" where
  "or_empty x = (case x of None \<Rightarrow> [] | Some xs \<Rightarrow> xs)"

subsection \<open>The store file\<close>

text \<open>
  The file is missing (\<open>None\<close>) or holds text, represented by what \<^verbatim>\<open>JSON.parse\<close> makes
  of it: a syntax error, \<^verbatim>\<open>null\<close>, another primitive or an array, or an object, of which
  the keys \<^verbatim>\<open>users\<close> and \<^verbatim>\<open>reviews\<close> matter (absent or null is \<open>None\<close>). This is
  the file as the handlers work on it: where an object holds the two keys, they have the
  shape in which \<open>writeStore\<close> writes them. What \<open>readStore\<close> returns on a file of any
  content is \<open>readStore_text\<close> below, and lemma \<open>parse_store_refines\<close> shows that the
  two agree on every file of this shape.
\<close>

datatype file_content =
    Unparseable
  | ParsedNull
  | ParsedOther
  | ParsedDoc "(string \<times> UserRecord) list option" "Review list option"

type_synonym store_file = "file_content option"

datatype fs_error = ENOENT

definition initial :: Store where
  "initial = \<lparr>users = [], reviews = []\<rparr>"

definition JSON_stringify :: "Store \<Rightarrow> file_content" where
  "JSON_stringify data = ParsedDoc (Some (users data)) (Some (reviews data))"

definition ensureStore :: "store_file \<Rightarrow> store_file" where
  "ensureStore f = (case f of None \<Rightarrow> Some (JSON_stringify initial) | Some c \<Rightarrow> Some c)"

definition readFile :: "store_file \<Rightarrow> fs_error + file_content" where
  "readFile f = (case f of None \<Rightarrow> Inl ENOENT | Some raw \<Rightarrow> Inr raw)"

text \<open>
  The \<^verbatim>\<open>try\<close> block of \<open>readStore\<close>: \<^verbatim>\<open>JSON.parse\<close> throws on bad syntax, the property
  read throws on \<^verbatim>\<open>null\<close>, and the \<^verbatim>\<open>catch\<close> answers both with the empty store; on any
  other value without the two keys, \<^verbatim>\<open>??\<close> supplies the defaults.
\<close>

fun parse_store :: "file_content \<Rightarrow> Store" where
  "parse_store (ParsedDoc us rs) =
     \<lparr>users = or_empty us, reviews = or_empty rs\<rparr>"
| "parse_store ParsedOther = \<lparr>users = [], reviews = []\<rparr>"
| "parse_store ParsedNull = \<lparr>users = [], reviews = []\<rparr>"
| "parse_store Unparseable = \<lparr>users = [], reviews = []\<rparr>"

definition readStore :: "store_file \<Rightarrow> (fs_error + Store) \<times> store_file" where
  "readStore f =
     (let f1 = ensureStore f in
      case readFile f1 of
        Inl e \<Rightarrow> (Inl e, f1)
      | Inr raw \<Rightarrow> (Inr (parse_store raw), f1))"

definition writeStore :: "Store \<Rightarrow> store_file \<Rightarrow> store_file" where
  "writeStore data f = (let f1 = ensureStore f in Some (JSON_stringify data))"

subsection \<open>Reading a file of any content\<close>

text \<open>
  The text of the file as \<^verbatim>\<open>JSON.parse\<close> sees it: text that is not JSON, or the text of
  a JSON value, whatever the value is (an object's keys are distinct after parsing).
\<close>

datatype file_text = NotJson | JsonText json

text \<open>
  The object that \<open>readStore\<close> returns: \<^verbatim>\<open>{ users: parsed.users ?? {}, reviews:
  parsed.reviews ?? [] }\<close>, with whatever values the two expressions have.
\<close>

record RawStore =
  raw_users :: json
  raw_reviews :: json

text \<open>
  \<^verbatim>\<open>parsed.users\<close> on a value other than \<^verbatim>\<open>null\<close>: the member of an object, and
  \<^verbatim>\<open>undefined\<close> (\<open>None\<close>) on an object without the key, on an array and on a primitive.
\<close>

fun property :: "json \<Rightarrow> string \<Rightarrow> json option" where
  "property (JObj kvs) k = map_of kvs k"
| "property v k = None"

text \<open>\<^verbatim>\<open>x ?? d\<close>: the default for \<^verbatim>\<open>undefined\<close> and \<^verbatim>\<open>null\<close>, and \<open>x\<close> otherwise.\<close>

fun nullish_coalesce :: "json option \<Rightarrow> json \<Rightarrow> json" where
  "nullish_coalesce None d = d"
| "nullish_coalesce (Some JNull) d = d"
| "nullish_coalesce (Some v) d = v"

text \<open>
  The \<^verbatim>\<open>try\<close> block: \<^verbatim>\<open>JSON.parse\<close> throws on text that is not JSON and the property
  read throws on \<^verbatim>\<open>null\<close>; the \<^verbatim>\<open>catch\<close> answers both with the empty store.
\<close>

fun parse_text :: "file_text \<Rightarrow> RawStore" where
  "parse_text NotJson = \<lparr>raw_users = JObj [], raw_reviews = JArr []\<rparr>"
| "parse_text (JsonText JNull) = \<lparr>raw_users = JObj [], raw_reviews = JArr []\<rparr>"
| "parse_text (JsonText parsed) =
     \<lparr>raw_users = nullish_coalesce (property parsed ''users'') (JObj []),
      raw_reviews = nullish_coalesce (property parsed ''reviews'') (JArr [])\<rparr>"

text \<open>
  \<^verbatim>\<open>JSON.stringify({ users: {}, reviews: [] }, null, 2)\<close>, the text that \<open>ensureStore\<close>
  writes where \<^verbatim>\<open>fs.access\<close> finds no file.
\<close>

definition initial_text :: file_text where
  "initial_text = JsonText (JObj [(''users'', JObj []), (''reviews'', JArr [])])"

definition ensureStore_text :: "file_text option \<Rightarrow> file_text option" where
  "ensureStore_text f = (case f of None \<Rightarrow> Some initial_text | Some t \<Rightarrow> Some t)"

definition readFile_text :: "file_text option \<Rightarrow> fs_error + file_text" where
  "readFile_text f = (case f of None \<Rightarrow> Inl ENOENT | Some raw \<Rightarrow> Inr raw)"

definition readStore_text :: "file_text option \<Rightarrow> (fs_error + RawStore) \<times> file_text option" where
  "readStore_text f =
     (let f1 = ensureStore_text f in
      case readFile_text f1 of
        Inl e \<Rightarrow> (Inl e, f1)
      | Inr raw \<Rightarrow> (Inr (parse_text raw), f1))"

text \<open>A users mapping is an object and a reviews list is an array.\<close>

fun is_mapping :: "json \<Rightarrow> bool" where
  "is_mapping (JObj kvs) = True"
| "is_mapping v = False"

fun is_list :: "json \<Rightarrow> bool" where
  "is_list (JArr xs) = True"
| "is_list v = False"

text \<open>
  When a text is a file as the handlers work on it, for JSON forms \<open>enc_users\<close> and
  \<open>enc_reviews\<close> of a users mapping and of a reviews list: a key that the typed file
  lacks is absent or null in the text, and a key that it has holds the JSON form, which
  is not null.
\<close>

fun member_is :: "('a \<Rightarrow> json) \<Rightarrow> json option \<Rightarrow> 'a option \<Rightarrow> bool" where
  "member_is enc x None = (x = None \<or> x = Some JNull)"
| "member_is enc x (Some a) = (x = Some (enc a) \<and> enc a \<noteq> JNull)"

fun typed_view ::
  "((string \<times> UserRecord) list \<Rightarrow> json) \<Rightarrow> (Review list \<Rightarrow> json) \<Rightarrow>
   file_text \<Rightarrow> file_content \<Rightarrow> bool" where
  "typed_view enc_users enc_reviews NotJson c = (c = Unparseable)"
| "typed_view enc_users enc_reviews (JsonText JNull) c = (c = ParsedNull)"
| "typed_view enc_users enc_reviews (JsonText (JObj kvs)) c =
     (case c of
        ParsedDoc us rs \<Rightarrow>
          member_is enc_users (map_of kvs ''users'') us \<and>
          member_is enc_reviews (map_of kvs ''reviews'') rs
      | _ \<Rightarrow> False)"
| "typed_view enc_users enc_reviews (JsonText v) c = (c = ParsedOther)"

subsection \<open>Responses\<close>

datatype payload =
    ErrorMsg string
  | UserPayload "AuthUser option"
  | UserDataPayload "(rat \<times> string) list" "(rat \<times> rat) list"
  | WatchStatesPayload "(rat \<times> string) list"
  | RatingsPayload "(rat \<times> rat) list"
  | ReviewPayload Review
  | ReviewsPayload "Review list"
  | ErrorPage

text \<open>
  A handler answers with a status and a JSON payload, or its promise rejects with the
  file system's error and no response is written. \<open>ErrorPage\<close> is the page of Express's
  default error handler, which answers an error that a middleware raises.
\<close>

datatype response = Response nat payload | Rejected fs_error

subsection \<open>The handlers\<close>

definition requireAuth ::
  "AuthUser option \<Rightarrow> (AuthUser \<Rightarrow> store_file \<Rightarrow> response \<times> store_file) \<Rightarrow> store_file \<Rightarrow> response \<times> store_file" where
  "requireAuth user next f =
     (case user of
        None \<Rightarrow> (Response 401 (ErrorMsg ''Unauthorized''), f)
      | Some u \<Rightarrow> next u f)"

text \<open>
  \<^verbatim>\<open>store.users[userId] ?? { watchStates: {}, ratings: {}, profile: req.user }\<close>, the record
  that the three protected handlers work on.
\<close>

definition userRecord_of :: "Store \<Rightarrow> AuthUser \<Rightarrow> UserRecord" where
  "userRecord_of store u =
     (case map_of (users store) (user_id u) of
        None \<Rightarrow> \<lparr>watchStates = Some [], ratings = Some [], profile = Some u\<rparr>
      | Some r \<Rightarrow> r)"

definition get_api_me :: "AuthUser option \<Rightarrow> store_file \<Rightarrow> response \<times> store_file" where
  "get_api_me user f =
     (case user of
        None \<Rightarrow> (Response 200 (UserPayload None), f)
      | Some u \<Rightarrow>
          (case readStore f of
             (Inl e, f1) \<Rightarrow> (Rejected e, f1)
           | (Inr store, f1) \<Rightarrow>
               (let existing =
                      (case map_of (users store) (user_id u) of
                         None \<Rightarrow> \<lparr>watchStates = Some [], ratings = Some [], profile = None\<rparr>
                       | Some r \<Rightarrow> r);
                    store1 = store\<lparr>users :=
                      AList.update (user_id u) (existing\<lparr>profile := Some u\<rparr>) (users store)\<rparr>
                in (Response 200 (UserPayload (Some u)), writeStore store1 f1))))"

definition user_data_handler :: "AuthUser \<Rightarrow> store_file \<Rightarrow> response \<times> store_file" where
  "user_data_handler u f =
     (case readStore f of
        (Inl e, f1) \<Rightarrow> (Rejected e, f1)
      | (Inr store, f1) \<Rightarrow>
          (let userRecord = userRecord_of store u;
               store1 = store\<lparr>users := AList.update (user_id u) userRecord (users store)\<rparr>
           in (Response 200 (UserDataPayload
                 (or_empty (watchStates userRecord))
                 (or_empty (ratings userRecord))),
               writeStore store1 f1)))"

definition get_api_user_data :: "AuthUser option \<Rightarrow> store_file \<Rightarrow> response \<times> store_file" where
  "get_api_user_data user f = requireAuth user user_data_handler f"

text \<open>
  \<^verbatim>\<open>review.movieId === movieId\<close> with \<^verbatim>\<open>movieId = Number(req.params.movieId)\<close>: a stored
  movie id is a finite number, which equals no infinity and no NaN.
\<close>

fun strict_equals :: "rat \<Rightarrow> jsnum \<Rightarrow> bool" where
  "strict_equals q (Fin p) = (q = p)"
| "strict_equals q _ = False"

text \<open>
  \<^verbatim>\<open>Array.prototype.sort\<close> is stable, and the comparator
  \<^verbatim>\<open>new Date(b.createdAt).getTime() - new Date(a.createdAt).getTime()\<close> orders by descending
  \<open>createdAt\<close>: the stable insertion sort on the negated key. The handler takes the
  number that \<^verbatim>\<open>Number(req.params.movieId)\<close> produced.
\<close>

definition get_api_reviews :: "AuthUser option \<Rightarrow> jsnum \<Rightarrow> store_file \<Rightarrow> response \<times> store_file" where
  "get_api_reviews user mid f =
     (case readStore f of
        (Inl e, f1) \<Rightarrow> (Rejected e, f1)
      | (Inr store, f1) \<Rightarrow>
          (Response 200 (ReviewsPayload
             (sort_key (\<lambda>r. - createdAt r)
                (filter (\<lambda>review. strict_equals (movieId review) mid) (reviews store)))),
           f1))"

definition invalid_status :: "json option \<Rightarrow> bool" where
  "invalid_status st =
     (st \<noteq> Some (JStr ''watched'') \<and> st \<noteq> Some (JStr ''watching'') \<and>
      st \<noteq> Some (JStr ''watchlist'') \<and> st \<noteq> Some JNull)"

definition status_handler :: "json option \<Rightarrow> AuthUser \<Rightarrow> store_file \<Rightarrow> response \<times> store_file" where
  "status_handler body u f =
     (let mid = body_field body ''movieId''; st = body_field body ''status'' in
      if \<not> Number_isFinite mid then (Response 400 (ErrorMsg ''Invalid movieId''), f)
      else if invalid_status st then (Response 400 (ErrorMsg ''Invalid status''), f)
      else
        (case readStore f of
           (Inl e, f1) \<Rightarrow> (Rejected e, f1)
         | (Inr store, f1) \<Rightarrow>
             (let userRecord = userRecord_of store u;
                  ws0 = or_empty (watchStates userRecord);
                  ws1 = (if st = Some JNull then AList.delete (the_number mid) ws0
                         else AList.update (the_number mid) (the_string st) ws0);
                  userRecord1 = userRecord\<lparr>watchStates := Some ws1\<rparr>;
                  store1 = store\<lparr>users := AList.update (user_id u) userRecord1 (users store)\<rparr>
              in (Response 200 (WatchStatesPayload ws1), writeStore store1 f1))))"

text \<open>
  The route as \<^verbatim>\<open>app.put('/api/status', requireAuth, ...)\<close> declares it, on the body
  that the body parser has put in \<^verbatim>\<open>req.body\<close>; \<open>app_put_status\<close> below is the request
  with the body parser in front. The same holds of the other two protected routes.
\<close>

definition put_api_status :: "AuthUser option \<Rightarrow> json option \<Rightarrow> store_file \<Rightarrow> response \<times> store_file" where
  "put_api_status user body f = requireAuth user (status_handler body) f"

text \<open>
  \<^verbatim>\<open>rating !== null && (!Number.isInteger(rating) || rating < 1 || rating > 5)\<close>. The two
  comparisons are only evaluated on an integer, by the short circuit.
\<close>

definition invalid_rating :: "json option \<Rightarrow> bool" where
  "invalid_rating rt =
     (rt \<noteq> Some JNull \<and>
      (\<not> Number_isInteger rt \<or> the_number rt < 1 \<or> the_number rt > 5))"

definition rating_handler :: "json option \<Rightarrow> AuthUser \<Rightarrow> store_file \<Rightarrow> response \<times> store_file" where
  "rating_handler body u f =
     (let mid = body_field body ''movieId''; rt = body_field body ''rating'' in
      if \<not> Number_isFinite mid then (Response 400 (ErrorMsg ''Invalid movieId''), f)
      else if invalid_rating rt then (Response 400 (ErrorMsg ''Invalid rating''), f)
      else
        (case readStore f of
           (Inl e, f1) \<Rightarrow> (Rejected e, f1)
         | (Inr store, f1) \<Rightarrow>
             (let userRecord = userRecord_of store u;
                  rs0 = or_empty (ratings userRecord);
                  rs1 = (if rt = Some JNull then AList.delete (the_number mid) rs0
                         else AList.update (the_number mid) (the_number rt) rs0);
                  userRecord1 = userRecord\<lparr>ratings := Some rs1\<rparr>;
                  store1 = store\<lparr>users := AList.update (user_id u) userRecord1 (users store)\<rparr>
              in (Response 200 (RatingsPayload rs1), writeStore store1 f1))))"

definition put_api_rating :: "AuthUser option \<Rightarrow> json option \<Rightarrow> store_file \<Rightarrow> response \<times> store_file" where
  "put_api_rating user body f = requireAuth user (rating_handler body) f"

text \<open>
  The review handler reads the clock twice: \<^verbatim>\<open>Date.now()\<close> for the id and
  \<^verbatim>\<open>new Date()\<close> for \<open>createdAt\<close>. Both readings are arguments.
\<close>

definition reviews_handler ::
  "json option \<Rightarrow> int \<Rightarrow> int \<Rightarrow> AuthUser \<Rightarrow> store_file \<Rightarrow> response \<times> store_file" where
  "reviews_handler body now_id now_created u f =
     (let mid = body_field body ''movieId''; ct = body_field body ''content'';
          rt = body_field body ''rating'' in
      if \<not> Number_isFinite mid then (Response 400 (ErrorMsg ''Invalid movieId''), f)
      else if \<not> typeof_string ct \<or> trim (the_string ct) = []
        then (Response 400 (ErrorMsg ''Review content is required''), f)
      else if invalid_rating rt then (Response 400 (ErrorMsg ''Invalid rating''), f)
      else
        (case readStore f of
           (Inl e, f1) \<Rightarrow> (Rejected e, f1)
         | (Inr store, f1) \<Rightarrow>
             (let review =
                    \<lparr>review_id = (the_number mid, now_id),
                     movieId = the_number mid,
                     author = displayName u,
                     rating = (if rt = Some JNull then None else Some (the_number rt)),
                     content = trim (the_string ct),
                     createdAt = now_created,
                     userId = user_id u\<rparr>;
                  store1 = store\<lparr>reviews := review # reviews store\<rparr>
              in (Response 201 (ReviewPayload review), writeStore store1 f1))))"

definition post_api_reviews ::
  "AuthUser option \<Rightarrow> json option \<Rightarrow> int \<Rightarrow> int \<Rightarrow> store_file \<Rightarrow> response \<times> store_file" where
  "post_api_reviews user body now_id now_created f =
     requireAuth user (reviews_handler body now_id now_created) f"

subsection \<open>The body parser in front of the routes\<close>

text \<open>
  \<^verbatim>\<open>app.use(express.json())\<close> is registered before the session and before every route.
  The body of a request arrives as no JSON body (none at all, an empty one, or one of
  another content type), as text that is not JSON, or as the text of a JSON value. The
  parser is strict by default: it passes on an object or an array in \<^verbatim>\<open>req.body\<close>, and
  raises an error of status 400 for text that is not JSON and for a JSON value that is
  neither, which Express's default error handler answers; the routes do not run then.
  Without a JSON body the parser sets \<^verbatim>\<open>req.body\<close> to \<^verbatim>\<open>{}\<close> or leaves it unset,
  depending on its version; the handlers read \<^verbatim>\<open>req.body ?? {}\<close>, which is the same for
  both. Its refusals of a body over the size limit or in an unsupported encoding are
  outside the embedding.
\<close>

datatype request_body = NoBody | BadSyntax | JsonBody json

fun express_json :: "request_body \<Rightarrow> response + json option" where
  "express_json NoBody = Inr None"
| "express_json BadSyntax = Inl (Response 400 ErrorPage)"
| "express_json (JsonBody (JObj kvs)) = Inr (Some (JObj kvs))"
| "express_json (JsonBody (JArr xs)) = Inr (Some (JArr xs))"
| "express_json (JsonBody v) = Inl (Response 400 ErrorPage)"

definition app_use_json ::
  "request_body \<Rightarrow> (json option \<Rightarrow> store_file \<Rightarrow> response \<times> store_file) \<Rightarrow>
   store_file \<Rightarrow> response \<times> store_file" where
  "app_use_json raw route f =
     (case express_json raw of
        Inl refusal \<Rightarrow> (refusal, f)
      | Inr body \<Rightarrow> route body f)"

text \<open>
  The three protected requests as the application serves them: the body parser, then the
  route (\<open>requireAuth\<close>, then the handler).
\<close>

definition app_put_status ::
  "AuthUser option \<Rightarrow> request_body \<Rightarrow> store_file \<Rightarrow> response \<times> store_file" where
  "app_put_status user raw f = app_use_json raw (put_api_status user) f"

definition app_put_rating ::
  "AuthUser option \<Rightarrow> request_body \<Rightarrow> store_file \<Rightarrow> response \<times> store_file" where
  "app_put_rating user raw f = app_use_json raw (put_api_rating user) f"

definition app_post_reviews ::
  "AuthUser option \<Rightarrow> request_body \<Rightarrow> int \<Rightarrow> int \<Rightarrow> store_file \<Rightarrow> response \<times> store_file" where
  "app_post_reviews user raw now_id now_created f =
     app_use_json raw (\<lambda>body. post_api_reviews user body now_id now_created) f"

subsection \<open>Sequences of calls\<close>

text \<open>
  A call names the route and carries what the handler reads from the request and from
  the clock; \<open>dispatch\<close> is the router, and \<open>run\<close> serves a sequence of calls, each
  made with an authenticated session, one after the other on the same file.
\<close>

datatype api_call =
    GetMe
  | GetUserData
  | GetReviews jsnum
  | PutStatus "json option"
  | PutRating "json option"
  | PostReviews "json option" int int

fun dispatch :: "AuthUser option \<Rightarrow> api_call \<Rightarrow> store_file \<Rightarrow> response \<times> store_file" where
  "dispatch user GetMe f = get_api_me user f"
| "dispatch user GetUserData f = get_api_user_data user f"
| "dispatch user (GetReviews mid) f = get_api_reviews user mid f"
| "dispatch user (PutStatus body) f = put_api_status user body f"
| "dispatch user (PutRating body) f = put_api_rating user body f"
| "dispatch user (PostReviews body now_id now_created) f =
     post_api_reviews user body now_id now_created f"

fun run :: "(AuthUser \<times> api_call) list \<Rightarrow> store_file \<Rightarrow> store_file" where
  "run [] f = f"
| "run ((u, c) # cs) f = run cs (snd (dispatch (Some u) c f))"

text \<open>
  The calls that reach the read-modify-write of a user record: the two \<^verbatim>\<open>GET\<close>s of the
  user's own data always, the two \<^verbatim>\<open>PUT\<close>s when the body passes both guards (lemma
  \<open>upserts_iff_200\<close> below: exactly when they answer 200).
\<close>

fun upserts :: "api_call \<Rightarrow> bool" where
  "upserts GetMe = True"
| "upserts GetUserData = True"
| "upserts (PutStatus body) =
     (Number_isFinite (body_field body ''movieId'') \<and>
      \<not> invalid_status (body_field body ''status''))"
| "upserts (PutRating body) =
     (Number_isFinite (body_field body ''movieId'') \<and>
      \<not> invalid_rating (body_field body ''rating''))"
| "upserts (GetReviews mid) = False"
| "upserts (PostReviews body now_id now_created) = False"

subsection \<open>The persisted store\<close>

text \<open>
  The store that the file holds, as a read of it returns it (lemma \<open>readStore_total\<close>
  below): the initial store for a missing file, the parse of its text otherwise.
\<close>

definition persisted :: "store_file \<Rightarrow> Store" where
  "persisted f = (case f of None \<Rightarrow> initial | Some raw \<Rightarrow> parse_store raw)"

subsection \<open>The client: the recommendation heuristic\<close>

text \<open>
  \<^verbatim>\<open>type WatchState = 'watched' | 'watching' | 'watchlist'\<close>, and of \<^verbatim>\<open>type Movie\<close> the
  fields that \<open>loadRecommendations\<close> reads, with the title for the reader. The client's
  state holds \<^verbatim>\<open>watchStates: Record<number, WatchState>\<close> and
  \<^verbatim>\<open>ratings: Record<number, number>\<close>, which are only looked up. Genre ids are the
  catalog's small non-negative integers.
\<close>

datatype WatchState = Watched | Watching | Watchlist

record Movie =
  movie_id :: rat
  title :: string
  genre_ids :: "nat list option"

text \<open>
  The accumulator of the \<^verbatim>\<open>reduce\<close> is an object from genre id to weight, kept as the
  list of its entries. \<^verbatim>\<open>acc[genreId] = (acc[genreId] ?? 0) + w\<close>:
\<close>

definition weight_in :: "(nat \<times> nat) list \<Rightarrow> nat \<Rightarrow> nat" where
  "weight_in acc genreId = (case map_of acc genreId of None \<Rightarrow> 0 | Some w \<Rightarrow> w)"

definition add_weight :: "nat \<Rightarrow> nat \<Rightarrow> (nat \<times> nat) list \<Rightarrow> (nat \<times> nat) list" where
  "add_weight w genreId acc = AList.update genreId (weight_in acc genreId + w) acc"

definition genre_reducer ::
  "(rat \<rightharpoonup> WatchState) \<Rightarrow> (rat \<rightharpoonup> rat) \<Rightarrow> (nat \<times> nat) list \<Rightarrow> Movie \<Rightarrow> (nat \<times> nat) list" where
  "genre_reducer ws rs acc movie =
     (let status = ws (movie_id movie);
          rating_v = (case rs (movie_id movie) of None \<Rightarrow> 0 | Some r \<Rightarrow> r);
          isWeighted = (status = Some Watched \<or> status = Some Watchlist \<or> rating_v \<ge> 4)
      in if \<not> isWeighted then acc
         else fold (add_weight (if rating_v \<ge> 4 then 2 else 1)) (or_empty (genre_ids movie)) acc)"

definition genre_weights ::
  "(rat \<rightharpoonup> WatchState) \<Rightarrow> (rat \<rightharpoonup> rat) \<Rightarrow> Movie list \<Rightarrow> (nat \<times> nat) list" where
  "genre_weights ws rs movies = fold (\<lambda>movie acc. genre_reducer ws rs acc movie) movies []"

text \<open>
  \<^verbatim>\<open>Object.entries\<close> lists integer keys in ascending order; the stable sort with the
  comparator \<^verbatim>\<open>b[1] - a[1]\<close> then orders the entries by descending weight.
\<close>

definition Object_entries :: "(nat \<times> nat) list \<Rightarrow> (nat \<times> nat) list" where
  "Object_entries acc = sort_key fst acc"

definition rankedGenres ::
  "(rat \<rightharpoonup> WatchState) \<Rightarrow> (rat \<rightharpoonup> rat) \<Rightarrow> Movie list \<Rightarrow> nat list" where
  "rankedGenres ws rs movies =
     map fst (take 2 (sort_key (\<lambda>e. - int (snd e)) (Object_entries (genre_weights ws rs movies))))"

text \<open>
  The catalog query is outside the program: \<open>fetchTmdb\<close> or \<^verbatim>\<open>response.json()\<close> throws,
  or the answer carries \<open>results\<close> or lacks them. \<open>loadRecommendations\<close> returns the list
  it hands to \<open>setRecommendations\<close>; its first argument says whether an API key or a
  read access token is configured.
\<close>

datatype catalog_response = Throws | Results "Movie list option"

definition loadRecommendations ::
  "bool \<Rightarrow> (nat list \<Rightarrow> catalog_response) \<Rightarrow> Movie list \<Rightarrow>
   (rat \<rightharpoonup> WatchState) \<Rightarrow> (rat \<rightharpoonup> rat) \<Rightarrow> Movie list" where
  "loadRecommendations has_credentials discover movies ws rs =
     (let ranked = rankedGenres ws rs movies in
      if \<not> has_credentials \<or> ranked = [] then
        take 8 (filter (\<lambda>movie. ws (movie_id movie) = None \<or>
                                ws (movie_id movie) = Some Watchlist) movies)
      else
        (case discover ranked of
           Results results \<Rightarrow>
             take 8 (filter (\<lambda>movie. ws (movie_id movie) = None) (or_empty results))
         | Throws \<Rightarrow> take 8 movies))"

text \<open>The bundled sample movies, which \<open>loadMovies\<close> shows when the catalog fails.\<close>

definition fallbackMovies :: "Movie list" where
  "fallbackMovies =
     [\<lparr>movie_id = 90001, title = ''North Star Signal'', genre_ids = Some [53, 18]\<rparr>,
      \<lparr>movie_id = 90002, title = ''Velvet Orbit'', genre_ids = Some [878, 18]\<rparr>,
      \<lparr>movie_id = 90003, title = ''Brass Avenue'', genre_ids = Some [35, 18]\<rparr>]"

subsection \<open>The heuristic in the specification's words\<close>

text \<open>
  A movie weighs 2 if its local rating is at least 4, 1 if it is marked watched or
  watchlisted and not already weighted, and 0 otherwise; a genre accumulates the weight of
  each movie once for every tag of that genre the movie carries.
\<close>

definition spec_weight :: "(rat \<rightharpoonup> WatchState) \<Rightarrow> (rat \<rightharpoonup> rat) \<Rightarrow> Movie \<Rightarrow> nat" where
  "spec_weight ws rs movie =
     (if (case rs (movie_id movie) of None \<Rightarrow> False | Some r \<Rightarrow> r \<ge> 4) then 2
      else if ws (movie_id movie) = Some Watched \<or> ws (movie_id movie) = Some Watchlist then 1
      else 0)"

definition spec_genre_weight ::
  "(rat \<rightharpoonup> WatchState) \<Rightarrow> (rat \<rightharpoonup> rat) \<Rightarrow> Movie list \<Rightarrow> nat \<Rightarrow> nat" where
  "spec_genre_weight ws rs movies g =
     sum_list (map (\<lambda>movie. spec_weight ws rs movie * count_list (or_empty (genre_ids movie)) g)
                 movies)"

text \<open>The invariant of the accumulator: every entry carries a positive weight.\<close>

definition positive :: "(nat \<times> nat) list \<Rightarrow> bool" where
  "positive acc = (\<forall>e\<in>set acc. 0 < snd e)"

subsection \<open>Example data\<close>

definition example_user :: AuthUser where
  "example_user =
     \<lparr>user_id = ''1001'', displayName = ''Mara P.'', email = ''mara@example.org'', avatar = []\<rparr>"

definition example_old_review :: Review where
  "example_old_review =
     \<lparr>review_id = (90002, 1770000000000), movieId = 90002, author = ''Dev K.'',
      rating = Some 5, content = ''One of the best sci-fi dramas I have seen in years.'',
      createdAt = 1770000000000, userId = ''1002''\<rparr>"

definition example_review_body :: "json option" where
  "example_review_body =
     Some (JObj [(''movieId'', JNum (Fin 90002)), (''content'', JStr '' Great film ''),
                 (''rating'', JNum (Fin 4))])"

definition example_new_review :: "int \<Rightarrow> int \<Rightarrow> Review" where
  "example_new_review now_id now_created =
     \<lparr>review_id = (90002, now_id), movieId = 90002, author = ''Mara P.'',
      rating = Some 4, content = ''Great film'', createdAt = now_created, userId = ''1001''\<rparr>"

definition example_action_drama :: "Movie list" where
  "example_action_drama =
     [\<lparr>movie_id = 1, title = ''Action one'', genre_ids = Some [28]\<rparr>,
      \<lparr>movie_id = 2, title = ''Action two'', genre_ids = Some [28]\<rparr>,
      \<lparr>movie_id = 3, title = ''Drama'', genre_ids = Some [18]\<rparr>]"

section \<open>Properties of the store and of the handlers\<close>

subsection \<open>Reading and writing\<close>

lemma or_empty_simps [simp]: "or_empty None = []" "or_empty (Some xs) = xs"
  by (simp_all add: or_empty_def)

lemma parse_store_stringify: "parse_store (JSON_stringify s) = s"
  by (simp add: JSON_stringify_def)

lemma readStore_total: "readStore f = (Inr (persisted f), ensureStore f)"
  by (cases f)
    (simp_all add: readStore_def ensureStore_def readFile_def persisted_def
      parse_store_stringify)

lemma persisted_writeStore: "persisted (writeStore s f) = s"
  by (simp add: writeStore_def persisted_def parse_store_stringify)

lemma persisted_ensureStore: "persisted (ensureStore f) = persisted f"
  by (cases f) (simp_all add: ensureStore_def persisted_def parse_store_stringify)

text \<open>
  The read of the handlers: it never fails, a missing file is created with the empty
  defaults, and what does not parse or lacks the keys reads as the empty store.
\<close>

lemma readStore_defaults:
  "(\<exists>store. fst (readStore f) = Inr store) \<and>
   readStore None = (Inr \<lparr>users = [], reviews = []\<rparr>, Some (ParsedDoc (Some []) (Some []))) \<and>
   readStore (Some Unparseable) = (Inr \<lparr>users = [], reviews = []\<rparr>, Some Unparseable) \<and>
   readStore (Some ParsedNull) = (Inr \<lparr>users = [], reviews = []\<rparr>, Some ParsedNull) \<and>
   readStore (Some ParsedOther) = (Inr \<lparr>users = [], reviews = []\<rparr>, Some ParsedOther) \<and>
   readStore (Some (ParsedDoc us rs)) =
     (Inr \<lparr>users = or_empty us, reviews = or_empty rs\<rparr>,
      Some (ParsedDoc us rs))"
  by (simp add: readStore_total persisted_def ensureStore_def JSON_stringify_def initial_def)

subsection \<open>Reading a file of any content\<close>

lemma readStore_text_eq:
  "readStore_text f =
     (Inr (parse_text (case f of None \<Rightarrow> initial_text | Some t \<Rightarrow> t)), ensureStore_text f)"
  by (cases f) (simp_all add: readStore_text_def ensureStore_text_def readFile_text_def)

lemma nullish_coalesce_not_null: "d \<noteq> JNull \<Longrightarrow> nullish_coalesce x d \<noteq> JNull"
  by (cases "(x, d)" rule: nullish_coalesce.cases) simp_all

lemma parse_text_not_null:
  "raw_users (parse_text t) \<noteq> JNull \<and> raw_reviews (parse_text t) \<noteq> JNull"
  by (cases t rule: parse_text.cases) (simp_all add: nullish_coalesce_not_null)

lemma nullish_coalesce_shape:
  "nullish_coalesce None d = d"
  "nullish_coalesce (Some v) d = (if v = JNull then d else v)"
  by (cases v; simp)+

lemma parse_text_members:
  "parsed \<noteq> JNull \<Longrightarrow>
   parse_text (JsonText parsed) =
     \<lparr>raw_users = nullish_coalesce (property parsed ''users'') (JObj []),
      raw_reviews = nullish_coalesce (property parsed ''reviews'') (JArr [])\<rparr>"
  by (cases parsed) simp_all

text \<open>
  On a file as the handlers work on it, the read of any content returns the JSON forms of
  what the handlers' read returns.
\<close>

lemma parse_store_refines:
  assumes "typed_view enc_users enc_reviews t c"
    and "enc_users [] = JObj []" and "enc_reviews [] = JArr []"
  shows "parse_text t =
     \<lparr>raw_users = enc_users (users (parse_store c)),
      raw_reviews = enc_reviews (reviews (parse_store c))\<rparr>"
proof (cases t)
  case NotJson
  with assms show ?thesis by simp
next
  case (JsonText parsed)
  show ?thesis
  proof (cases parsed)
    case (JObj kvs)
    with JsonText assms(1) obtain us rs where c: "c = ParsedDoc us rs"
      and u: "member_is enc_users (map_of kvs ''users'') us"
      and r: "member_is enc_reviews (map_of kvs ''reviews'') rs"
      by (cases c) simp_all
    from u assms(2) have "nullish_coalesce (map_of kvs ''users'') (JObj []) = enc_users (or_empty us)"
      by (cases us) (auto simp: nullish_coalesce_shape)
    moreover from r assms(3)
    have "nullish_coalesce (map_of kvs ''reviews'') (JArr []) = enc_reviews (or_empty rs)"
      by (cases rs) (auto simp: nullish_coalesce_shape)
    ultimately show ?thesis using JsonText JObj c by simp
  qed (use JsonText assms in simp_all)
qed

text \<open>
  C8, as amended. A read never fails: it returns a store with a \<open>users\<close> and a
  \<open>reviews\<close> value, neither of them null, for every state of the file. A missing file
  is created with the empty defaults and read back as the empty store; text that is not
  JSON, and the text of \<^verbatim>\<open>null\<close>, read as the empty store, and a file that exists is
  left as it is. The returned values are a mapping and a list whenever each of the two
  keys is absent from the file's JSON value, null, or holds a value of that kind; a
  value of another kind under a key is returned as it is.
\<close>

theorem readStore_text_total:
  "(\<exists>store. fst (readStore_text f) = Inr store \<and>
      raw_users store \<noteq> JNull \<and> raw_reviews store \<noteq> JNull) \<and>
   readStore_text None = (Inr \<lparr>raw_users = JObj [], raw_reviews = JArr []\<rparr>, Some initial_text) \<and>
   readStore_text (Some NotJson)
     = (Inr \<lparr>raw_users = JObj [], raw_reviews = JArr []\<rparr>, Some NotJson) \<and>
   readStore_text (Some (JsonText JNull))
     = (Inr \<lparr>raw_users = JObj [], raw_reviews = JArr []\<rparr>, Some (JsonText JNull)) \<and>
   snd (readStore_text (Some t)) = Some t \<and>
   ((case property parsed ''users'' of None \<Rightarrow> True | Some v \<Rightarrow> v = JNull \<or> is_mapping v) \<and>
    (case property parsed ''reviews'' of None \<Rightarrow> True | Some v \<Rightarrow> v = JNull \<or> is_list v) \<longrightarrow>
      (\<exists>store. fst (readStore_text (Some (JsonText parsed))) = Inr store \<and>
         is_mapping (raw_users store) \<and> is_list (raw_reviews store))) \<and>
   (property parsed ''users'' = Some v \<and> v \<noteq> JNull \<longrightarrow>
      (\<exists>store. fst (readStore_text (Some (JsonText parsed))) = Inr store \<and> raw_users store = v)) \<and>
   (property parsed ''reviews'' = Some w \<and> w \<noteq> JNull \<longrightarrow>
      (\<exists>store. fst (readStore_text (Some (JsonText parsed))) = Inr store \<and> raw_reviews store = w))"
proof (intro conjI)
  show "\<exists>store. fst (readStore_text f) = Inr store \<and>
      raw_users store \<noteq> JNull \<and> raw_reviews store \<noteq> JNull"
    by (simp add: readStore_text_eq parse_text_not_null)
  show "readStore_text None
      = (Inr \<lparr>raw_users = JObj [], raw_reviews = JArr []\<rparr>, Some initial_text)"
    by (simp add: readStore_text_eq ensureStore_text_def initial_text_def)
  show "readStore_text (Some NotJson)
      = (Inr \<lparr>raw_users = JObj [], raw_reviews = JArr []\<rparr>, Some NotJson)"
    by (simp add: readStore_text_eq ensureStore_text_def)
  show "readStore_text (Some (JsonText JNull))
      = (Inr \<lparr>raw_users = JObj [], raw_reviews = JArr []\<rparr>, Some (JsonText JNull))"
    by (simp add: readStore_text_eq ensureStore_text_def)
  show "snd (readStore_text (Some t)) = Some t"
    by (simp add: readStore_text_eq ensureStore_text_def)
  show "(case property parsed ''users'' of None \<Rightarrow> True | Some v \<Rightarrow> v = JNull \<or> is_mapping v) \<and>
    (case property parsed ''reviews'' of None \<Rightarrow> True | Some v \<Rightarrow> v = JNull \<or> is_list v) \<longrightarrow>
      (\<exists>store. fst (readStore_text (Some (JsonText parsed))) = Inr store \<and>
         is_mapping (raw_users store) \<and> is_list (raw_reviews store))"
  proof (cases "parsed = JNull")
    case True
    then show ?thesis by (simp add: readStore_text_eq)
  next
    case False
    then show ?thesis
      by (auto simp: readStore_text_eq parse_text_members nullish_coalesce_shape
          split: option.splits)
  qed
  show "property parsed ''users'' = Some v \<and> v \<noteq> JNull \<longrightarrow>
      (\<exists>store. fst (readStore_text (Some (JsonText parsed))) = Inr store \<and> raw_users store = v)"
    by (cases "parsed = JNull")
      (auto simp: readStore_text_eq parse_text_members nullish_coalesce_shape)
  show "property parsed ''reviews'' = Some w \<and> w \<noteq> JNull \<longrightarrow>
      (\<exists>store. fst (readStore_text (Some (JsonText parsed))) = Inr store \<and> raw_reviews store = w)"
    by (cases "parsed = JNull")
      (auto simp: readStore_text_eq parse_text_members nullish_coalesce_shape)
qed

theorem readStore_text_total_witness:
  "\<exists>store. fst (readStore_text (Some (JsonText (JObj [(''reviews'', JArr [])])))) = Inr store \<and>
     is_mapping (raw_users store) \<and> is_list (raw_reviews store)"
proof -
  have "(case property (JObj [(''reviews'', JArr [])]) ''users'' of
           None \<Rightarrow> True | Some v \<Rightarrow> v = JNull \<or> is_mapping v) \<and>
        (case property (JObj [(''reviews'', JArr [])]) ''reviews'' of
           None \<Rightarrow> True | Some v \<Rightarrow> v = JNull \<or> is_list v)"
    by simp
  with readStore_text_total [of None NotJson "JObj [(''reviews'', JArr [])]" JNull JNull]
  show ?thesis by blast
qed

text \<open>
  C8 as stated fails on a file whose JSON value holds a value that is not null and of
  another kind under one of the two keys: \<^verbatim>\<open>??\<close> keeps it, and the read returns a string
  for \<open>users\<close> and a number for \<open>reviews\<close>.
\<close>

theorem readStore_misshaped_counterexample:
  "readStore_text (Some (JsonText (JObj [(''users'', JStr ''oops''), (''reviews'', JNum (Fin 7))])))
     = (Inr \<lparr>raw_users = JStr ''oops'', raw_reviews = JNum (Fin 7)\<rparr>,
        Some (JsonText (JObj [(''users'', JStr ''oops''), (''reviews'', JNum (Fin 7))]))) \<and>
   \<not> is_mapping (JStr ''oops'') \<and> \<not> is_list (JNum (Fin 7))"
  by (simp add: readStore_text_eq ensureStore_text_def)

subsection \<open>Rejected requests\<close>

lemma isInteger_Ints: "Number_isInteger (Some (JNum (Fin q))) \<longleftrightarrow> q \<in> \<int>"
  by (metis Number_isInteger.simps(1) Ints_of_int floor_of_int Ints_cases)

lemma integer_1_5:
  "(q \<in> \<int> \<and> 1 \<le> q \<and> q \<le> 5) \<longleftrightarrow> (\<exists>n\<in>{1..5::int}. q = rat_of_int n)"
proof
  assume h: "q \<in> \<int> \<and> 1 \<le> q \<and> q \<le> 5"
  then obtain n where n: "q = rat_of_int n" by (auto elim: Ints_cases)
  with h have "1 \<le> n \<and> n \<le> 5" by simp
  with n show "\<exists>n\<in>{1..5::int}. q = rat_of_int n" by auto
next
  assume "\<exists>n\<in>{1..5::int}. q = rat_of_int n"
  then show "q \<in> \<int> \<and> 1 \<le> q \<and> q \<le> 5" by auto
qed

lemma invalid_rating_Fin:
  "invalid_rating (Some (JNum (Fin q))) \<longleftrightarrow> \<not> (\<exists>n\<in>{1..5::int}. q = rat_of_int n)"
  unfolding invalid_rating_def isInteger_Ints integer_1_5 [symmetric]
  by (auto simp: not_le)

text \<open>
  The guard of the rating and review handlers rejects exactly what is neither
  \<^verbatim>\<open>null\<close> nor one of the numbers 1 to 5.
\<close>

lemma invalid_rating_iff:
  "invalid_rating rt \<longleftrightarrow>
     rt \<noteq> Some JNull \<and> \<not> (\<exists>n\<in>{1..5::int}. rt = Some (JNum (Fin (rat_of_int n))))"
proof (cases rt)
  case None
  then show ?thesis by (simp add: invalid_rating_def)
next
  case (Some j)
  show ?thesis
  proof (cases j)
    case (JNum x)
    show ?thesis
    proof (cases x)
      case (Fin q)
      with Some JNum show ?thesis by (simp add: invalid_rating_Fin)
    qed (simp_all add: Some JNum invalid_rating_def)
  qed (simp_all add: Some invalid_rating_def)
qed

text \<open>
  C1. An authenticated \<^verbatim>\<open>PUT /api/rating\<close> whose movie id is a finite number and whose
  rating is not \<^verbatim>\<open>null\<close> and not one of the integers 1 to 5 (another number, a value
  of another type, or no rating at all) is answered with 400 and the message
  \<^verbatim>\<open>Invalid rating\<close>, and the file is the one the request found: the handler returns
  before it reads or writes the store.
\<close>

theorem rating_rejects_invalid:
  assumes "Number_isFinite (body_field body ''movieId'')"
    and "body_field body ''rating'' \<noteq> Some JNull"
    and "\<not> (\<exists>n\<in>{1..5::int}. body_field body ''rating'' = Some (JNum (Fin (rat_of_int n))))"
  shows "put_api_rating (Some u) body f = (Response 400 (ErrorMsg ''Invalid rating''), f)"
  using assms
  by (simp add: put_api_rating_def requireAuth_def rating_handler_def invalid_rating_iff)

theorem rating_rejects_invalid_witness:
  "put_api_rating (Some example_user)
     (Some (JObj [(''movieId'', JNum (Fin 90001)), (''rating'', JNum (Fin (7 / 2)))]))
     (Some (ParsedDoc (Some []) (Some [])))
   = (Response 400 (ErrorMsg ''Invalid rating''), Some (ParsedDoc (Some []) (Some [])))"
proof (rule rating_rejects_invalid)
  have "rat_of_int n * 2 \<noteq> 7" for n :: int
  proof
    assume "rat_of_int n * 2 = 7"
    then have "rat_of_int (n * 2) = rat_of_int 7" by simp
    then have "n * 2 = 7" by (simp only: of_int_eq_iff)
    then show False by presburger
  qed
  then show "\<not> (\<exists>n\<in>{1..5::int}.
      body_field (Some (JObj [(''movieId'', JNum (Fin 90001)), (''rating'', JNum (Fin (7 / 2)))]))
        ''rating'' = Some (JNum (Fin (rat_of_int n))))"
    by (simp add: eq_commute [of "7 / 2"] divide_eq_eq)
qed simp_all

text \<open>
  The three protected routes answer 401 to a request without a user in the session,
  whatever body the parser has passed on, and the file is the one the request found.
\<close>

lemma route_requires_auth:
  "put_api_status None body f = (Response 401 (ErrorMsg ''Unauthorized''), f) \<and>
   put_api_rating None body f = (Response 401 (ErrorMsg ''Unauthorized''), f) \<and>
   post_api_reviews None body now_id now_created f = (Response 401 (ErrorMsg ''Unauthorized''), f)"
  by (simp add: put_api_status_def put_api_rating_def post_api_reviews_def requireAuth_def)

text \<open>What the body parser accepts, and that it refuses with 400 only.\<close>

lemma express_json_accepts:
  "express_json raw = Inr body \<longleftrightarrow>
     (raw = NoBody \<and> body = None) \<or>
     (\<exists>kvs. raw = JsonBody (JObj kvs) \<and> body = Some (JObj kvs)) \<or>
     (\<exists>xs. raw = JsonBody (JArr xs) \<and> body = Some (JArr xs))"
  by (cases raw rule: express_json.cases) auto

lemma express_json_refuses:
  "express_json raw = Inl refusal \<Longrightarrow> refusal = Response 400 ErrorPage"
  by (cases raw rule: express_json.cases) auto

text \<open>On a body that the parser accepts, the request is the route on the parsed body.\<close>

lemma app_accepts:
  assumes "express_json raw = Inr body"
  shows "app_put_status user raw f = put_api_status user body f"
    and "app_put_rating user raw f = put_api_rating user body f"
    and "app_post_reviews user raw now_id now_created f =
           post_api_reviews user body now_id now_created f"
  using assms
  by (simp_all add: app_put_status_def app_put_rating_def app_post_reviews_def app_use_json_def)

lemma app_refuses:
  assumes "express_json raw = Inl refusal"
  shows "app_put_status user raw f = (refusal, f)"
    and "app_put_rating user raw f = (refusal, f)"
    and "app_post_reviews user raw now_id now_created f = (refusal, f)"
  using assms
  by (simp_all add: app_put_status_def app_put_rating_def app_post_reviews_def app_use_json_def)

text \<open>
  C4, as amended. Without a user in the session, \<^verbatim>\<open>PUT /api/status\<close>,
  \<^verbatim>\<open>PUT /api/rating\<close> and \<^verbatim>\<open>POST /api/reviews\<close> answer 401 when the body parser accepts
  the body (no JSON body, or the text of an object or an array); when it refuses the body
  (text that is not JSON, or a JSON value that is neither), the answer is its 400, given
  before the session is looked at. In both cases the file is the one the request found
  (a missing file stays missing).
\<close>

theorem unauthenticated_rejected:
  "(express_json raw = Inr body \<longrightarrow>
      app_put_status None raw f = (Response 401 (ErrorMsg ''Unauthorized''), f) \<and>
      app_put_rating None raw f = (Response 401 (ErrorMsg ''Unauthorized''), f) \<and>
      app_post_reviews None raw now_id now_created f
        = (Response 401 (ErrorMsg ''Unauthorized''), f)) \<and>
   (express_json raw = Inl refusal \<longrightarrow>
      app_put_status None raw f = (Response 400 ErrorPage, f) \<and>
      app_put_rating None raw f = (Response 400 ErrorPage, f) \<and>
      app_post_reviews None raw now_id now_created f = (Response 400 ErrorPage, f)) \<and>
   snd (app_put_status None raw f) = f \<and>
   snd (app_put_rating None raw f) = f \<and>
   snd (app_post_reviews None raw now_id now_created f) = f"
proof (cases "express_json raw")
  case (Inl r)
  then have "r = Response 400 ErrorPage" by (rule express_json_refuses)
  with Inl show ?thesis by (simp add: app_refuses [OF Inl])
next
  case (Inr b)
  then show ?thesis
    by (auto simp: app_accepts [OF Inr] route_requires_auth)
qed

theorem unauthenticated_rejected_witness:
  "app_put_status None
      (JsonBody (JObj [(''movieId'', JNum (Fin 90001)), (''status'', JStr ''watched'')])) None
     = (Response 401 (ErrorMsg ''Unauthorized''), None) \<and>
   app_put_rating None NoBody None = (Response 401 (ErrorMsg ''Unauthorized''), None) \<and>
   app_post_reviews None BadSyntax 1770000000000 1770000000001 None
     = (Response 400 ErrorPage, None)"
proof -
  have a: "express_json
      (JsonBody (JObj [(''movieId'', JNum (Fin 90001)), (''status'', JStr ''watched'')]))
      = Inr (Some (JObj [(''movieId'', JNum (Fin 90001)), (''status'', JStr ''watched'')]))"
    and b: "express_json NoBody = Inr None"
    and c: "express_json BadSyntax = Inl (Response 400 ErrorPage)"
    by simp_all
  from a unauthenticated_rejected
      [of "JsonBody (JObj [(''movieId'', JNum (Fin 90001)), (''status'', JStr ''watched'')])"
          "Some (JObj [(''movieId'', JNum (Fin 90001)), (''status'', JStr ''watched'')])" None]
  have 1: "app_put_status None
      (JsonBody (JObj [(''movieId'', JNum (Fin 90001)), (''status'', JStr ''watched'')])) None
     = (Response 401 (ErrorMsg ''Unauthorized''), None)"
    by blast
  from b unauthenticated_rejected [of NoBody None None]
  have 2: "app_put_rating None NoBody None = (Response 401 (ErrorMsg ''Unauthorized''), None)"
    by blast
  from c unauthenticated_rejected
      [of BadSyntax _ None 1770000000000 1770000000001 "Response 400 ErrorPage"]
  have 3: "app_post_reviews None BadSyntax 1770000000000 1770000000001 None
     = (Response 400 ErrorPage, None)"
    by blast
  from 1 2 3 show ?thesis by (intro conjI)
qed

text \<open>
  C4 as stated fails on a body that the parser refuses: the request without a session is
  answered 400, not 401.
\<close>

theorem unauthenticated_bad_body_counterexample:
  "app_put_status None BadSyntax None = (Response 400 ErrorPage, None) \<and>
   app_put_rating None (JsonBody (JNum (Fin 5))) None = (Response 400 ErrorPage, None) \<and>
   app_post_reviews None (JsonBody (JStr ''Great film'')) 1770000000000 1770000000001 None
     = (Response 400 ErrorPage, None) \<and>
   Response 400 ErrorPage \<noteq> Response 401 (ErrorMsg ''Unauthorized'')"
  by (simp add: app_put_status_def app_put_rating_def app_post_reviews_def app_use_json_def)

subsection \<open>Watch status\<close>

lemma userRecord_of_update:
  "userRecord_of (store\<lparr>users := AList.update (user_id u) r (users store)\<rparr>) u = r"
  by (simp add: userRecord_of_def update_conv')

lemma status_handler_ok:
  assumes "body_field body ''movieId'' = Some (JNum (Fin m))"
    and "\<not> invalid_status (body_field body ''status'')"
  shows "status_handler body u f =
    (let st = body_field body ''status'';
         userRecord = userRecord_of (persisted f) u;
         ws0 = or_empty (watchStates userRecord);
         ws1 = (if st = Some JNull then AList.delete m ws0 else AList.update m (the_string st) ws0)
     in (Response 200 (WatchStatesPayload ws1),
         writeStore ((persisted f)\<lparr>users :=
           AList.update (user_id u) (userRecord\<lparr>watchStates := Some ws1\<rparr>) (users (persisted f))\<rparr>)
           (ensureStore f)))"
  using assms by (simp add: status_handler_def readStore_total Let_def)

lemma user_data_handler_eq:
  "user_data_handler u f =
     (Response 200 (UserDataPayload
        (or_empty (watchStates (userRecord_of (persisted f) u)))
        (or_empty (ratings (userRecord_of (persisted f) u)))),
      writeStore ((persisted f)\<lparr>users :=
        AList.update (user_id u) (userRecord_of (persisted f) u) (users (persisted f))\<rparr>)
        (ensureStore f))"
  by (simp add: user_data_handler_def readStore_total Let_def)

text \<open>
  C2. For an authenticated user and a movie id that is a finite number \<open>m\<close>: after
  \<^verbatim>\<open>PUT /api/status\<close> with one of the three status strings, \<^verbatim>\<open>GET /api/user-data\<close>
  of the same user answers 200 with a \<open>watchStates\<close> mapping that holds the status at
  \<open>m\<close>; after \<^verbatim>\<open>PUT /api/status\<close> with status \<^verbatim>\<open>null\<close>, the mapping has no key \<open>m\<close>.
  This holds from every state of the file.
\<close>

theorem status_then_user_data:
  assumes "body_field body ''movieId'' = Some (JNum (Fin m))"
  shows "(s \<in> {''watched'', ''watching'', ''watchlist''} \<and>
            body_field body ''status'' = Some (JStr s) \<longrightarrow>
          (\<exists>ws rs f2.
             get_api_user_data (Some u) (snd (put_api_status (Some u) body f))
               = (Response 200 (UserDataPayload ws rs), f2) \<and>
             map_of ws m = Some s)) \<and>
         (body_field body ''status'' = Some JNull \<longrightarrow>
          (\<exists>ws rs f2.
             get_api_user_data (Some u) (snd (put_api_status (Some u) body f))
               = (Response 200 (UserDataPayload ws rs), f2) \<and>
             m \<notin> fst ` set ws))"
proof (intro conjI impI)
  assume h: "s \<in> {''watched'', ''watching'', ''watchlist''} \<and>
    body_field body ''status'' = Some (JStr s)"
  then have v: "\<not> invalid_status (body_field body ''status'')"
    by (auto simp: invalid_status_def)
  show "\<exists>ws rs f2.
     get_api_user_data (Some u) (snd (put_api_status (Some u) body f))
       = (Response 200 (UserDataPayload ws rs), f2) \<and> map_of ws m = Some s"
    using h
    by (simp add: put_api_status_def get_api_user_data_def requireAuth_def
        status_handler_ok [OF assms v] user_data_handler_eq Let_def
        persisted_writeStore userRecord_of_update update_conv')
next
  assume h: "body_field body ''status'' = Some JNull"
  then have v: "\<not> invalid_status (body_field body ''status'')"
    by (simp add: invalid_status_def)
  show "\<exists>ws rs f2.
     get_api_user_data (Some u) (snd (put_api_status (Some u) body f))
       = (Response 200 (UserDataPayload ws rs), f2) \<and> m \<notin> fst ` set ws"
    using h
    by (simp add: put_api_status_def get_api_user_data_def requireAuth_def
        status_handler_ok [OF assms v] user_data_handler_eq Let_def
        persisted_writeStore userRecord_of_update delete_notin_dom)
qed

theorem status_then_user_data_witness:
  "(\<exists>ws rs f2.
      get_api_user_data (Some example_user)
        (snd (put_api_status (Some example_user)
           (Some (JObj [(''movieId'', JNum (Fin 90001)), (''status'', JStr ''watchlist'')])) None))
        = (Response 200 (UserDataPayload ws rs), f2) \<and>
      map_of ws 90001 = Some ''watchlist'') \<and>
   (\<exists>ws rs f2.
      get_api_user_data (Some example_user)
        (snd (put_api_status (Some example_user)
           (Some (JObj [(''movieId'', JNum (Fin 90001)), (''status'', JNull)]))
           (Some (ParsedDoc
              (Some [(''1001'', \<lparr>watchStates = Some [(90001, ''watched'')], ratings = None,
                                profile = None\<rparr>)])
              None))))
        = (Response 200 (UserDataPayload ws rs), f2) \<and>
      90001 \<notin> fst ` set ws)"
  using
    status_then_user_data
      [of "Some (JObj [(''movieId'', JNum (Fin 90001)), (''status'', JStr ''watchlist'')])"
          90001 "''watchlist''" example_user None]
    status_then_user_data
      [of "Some (JObj [(''movieId'', JNum (Fin 90001)), (''status'', JNull)])"
          90001 "''watched''" example_user
          "Some (ParsedDoc
              (Some [(''1001'', \<lparr>watchStates = Some [(90001, ''watched'')], ratings = None,
                                profile = None\<rparr>)])
              None)"]
  by simp

subsection \<open>Reading reviews\<close>

text \<open>
  C3. \<^verbatim>\<open>GET /api/reviews/:movieId\<close> answers 200, for a request with or without a user,
  with exactly the stored reviews whose movie id equals the number of the path segment
  (each as often as the store holds it), ordered by descending \<open>createdAt\<close>.
\<close>

theorem reviews_newest_first:
  "\<exists>rs. get_api_reviews user mid f = (Response 200 (ReviewsPayload rs), ensureStore f) \<and>
        mset rs = mset (filter (\<lambda>r. strict_equals (movieId r) mid) (reviews (persisted f))) \<and>
        sorted_wrt (\<lambda>a b. createdAt b \<le> createdAt a) rs"
proof -
  let ?rs = "sort_key (\<lambda>r. - createdAt r)
    (filter (\<lambda>r. strict_equals (movieId r) mid) (reviews (persisted f)))"
  have "sorted (map (\<lambda>r. - createdAt r) ?rs)" by (rule sorted_sort_key)
  then have "sorted_wrt (\<lambda>a b. createdAt b \<le> createdAt a) ?rs"
    by (simp add: sorted_map)
  then show ?thesis
    by (simp add: get_api_reviews_def readStore_total)
qed

theorem reviews_newest_first_witness:
  "\<exists>rs. get_api_reviews None (Fin 90002)
          (Some (ParsedDoc None (Some
            [\<lparr>review_id = (90002, 1000), movieId = 90002, author = ''Dev K.'', rating = Some 5,
              content = ''One of the best'', createdAt = 1000, userId = ''1002''\<rparr>,
             \<lparr>review_id = (90001, 3000), movieId = 90001, author = ''Mara P.'', rating = Some 4,
              content = ''Slow start'', createdAt = 3000, userId = ''1001''\<rparr>,
             \<lparr>review_id = (90002, 2000), movieId = 90002, author = ''Mara P.'', rating = None,
              content = ''Great film'', createdAt = 2000, userId = ''1001''\<rparr>])))
        = (Response 200 (ReviewsPayload rs),
           Some (ParsedDoc None (Some
            [\<lparr>review_id = (90002, 1000), movieId = 90002, author = ''Dev K.'', rating = Some 5,
              content = ''One of the best'', createdAt = 1000, userId = ''1002''\<rparr>,
             \<lparr>review_id = (90001, 3000), movieId = 90001, author = ''Mara P.'', rating = Some 4,
              content = ''Slow start'', createdAt = 3000, userId = ''1001''\<rparr>,
             \<lparr>review_id = (90002, 2000), movieId = 90002, author = ''Mara P.'', rating = None,
              content = ''Great film'', createdAt = 2000, userId = ''1001''\<rparr>]))) \<and>
        map createdAt rs = [2000, 1000]"
proof -
  let ?f = "Some (ParsedDoc None (Some
            [\<lparr>review_id = (90002, 1000), movieId = 90002, author = ''Dev K.'', rating = Some 5,
              content = ''One of the best'', createdAt = 1000, userId = ''1002''\<rparr>,
             \<lparr>review_id = (90001, 3000), movieId = 90001, author = ''Mara P.'', rating = Some 4,
              content = ''Slow start'', createdAt = 3000, userId = ''1001''\<rparr>,
             \<lparr>review_id = (90002, 2000), movieId = 90002, author = ''Mara P.'', rating = None,
              content = ''Great film'', createdAt = 2000, userId = ''1001''\<rparr>]))"
  from reviews_newest_first [of None "Fin 90002" ?f]
  obtain rs where rs: "get_api_reviews None (Fin 90002) ?f
      = (Response 200 (ReviewsPayload rs), ensureStore ?f)"
    by blast
  then have "map createdAt rs = [2000, 1000]"
    by (simp add: get_api_reviews_def readStore_total persisted_def ensureStore_def) auto
  with rs show ?thesis by (simp add: ensureStore_def)
qed

subsection \<open>Creating a review\<close>

lemma reviews_handler_ok:
  assumes "body_field body ''movieId'' = Some (JNum (Fin m))"
    and "body_field body ''content'' = Some (JStr c)"
    and "trim c \<noteq> []"
    and "\<not> invalid_rating (body_field body ''rating'')"
  shows "reviews_handler body n1 n2 u f =
    (let rt = body_field body ''rating'';
         review = \<lparr>review_id = (m, n1), movieId = m, author = displayName u,
                   rating = (if rt = Some JNull then None else Some (the_number rt)),
                   content = trim c, createdAt = n2, userId = user_id u\<rparr>
     in (Response 201 (ReviewPayload review),
         writeStore ((persisted f)\<lparr>reviews := review # reviews (persisted f)\<rparr>) (ensureStore f)))"
  using assms by (simp add: reviews_handler_def readStore_total Let_def)

lemma get_api_reviews_eq:
  "get_api_reviews user mid f =
     (Response 200 (ReviewsPayload
        (sort_key (\<lambda>r. - createdAt r)
           (filter (\<lambda>review. strict_equals (movieId review) mid) (reviews (persisted f))))),
      ensureStore f)"
  by (simp add: get_api_reviews_def readStore_total)

lemma sort_key_first:
  assumes "\<forall>y\<in>set ys. k x \<le> k y"
  shows "sort_key k (x # ys) = x # sort_key k ys"
  using assms by (simp add: insort_is_Cons)

text \<open>
  C5, as amended. For an authenticated \<^verbatim>\<open>POST /api/reviews\<close> whose movie id is a finite
  number \<open>m\<close>: when the content is a string with a non-empty trim and the rating is
  \<^verbatim>\<open>null\<close> or an integer 1 to 5, the answer is 201 with a review whose author is the
  caller's display name, whose content is the trimmed input and whose \<open>createdAt\<close> is
  the second clock reading, and the stored list is that review followed by the list the
  request found; a following \<^verbatim>\<open>GET /api/reviews/m\<close> lists it first provided that no
  stored review of \<open>m\<close> has a later \<open>createdAt\<close>. When the content is not a string or
  trims to the empty string, the answer is 400 and the file is the one the request found.
\<close>

theorem review_created:
  assumes "body_field body ''movieId'' = Some (JNum (Fin m))"
  shows
    "(body_field body ''content'' = Some (JStr c) \<and> trim c \<noteq> [] \<and>
      (body_field body ''rating'' = Some JNull \<or>
       (\<exists>n\<in>{1..5::int}. body_field body ''rating'' = Some (JNum (Fin (rat_of_int n))))) \<longrightarrow>
      (\<exists>rv f1.
         post_api_reviews (Some u) body now_id now_created f = (Response 201 (ReviewPayload rv), f1) \<and>
         author rv = displayName u \<and> content rv = trim c \<and> movieId rv = m \<and>
         createdAt rv = now_created \<and>
         reviews (persisted f1) = rv # reviews (persisted f) \<and>
         ((\<forall>r\<in>set (reviews (persisted f)). movieId r = m \<longrightarrow> createdAt r \<le> now_created) \<longrightarrow>
          (\<exists>rest. get_api_reviews reader (Fin m) f1
             = (Response 200 (ReviewsPayload (rv # rest)), f1))))) \<and>
     (\<not> typeof_string (body_field body ''content'') \<or>
      trim (the_string (body_field body ''content'')) = [] \<longrightarrow>
      post_api_reviews (Some u) body now_id now_created f
        = (Response 400 (ErrorMsg ''Review content is required''), f))"
proof (intro conjI impI)
  assume h: "body_field body ''content'' = Some (JStr c) \<and> trim c \<noteq> [] \<and>
      (body_field body ''rating'' = Some JNull \<or>
       (\<exists>n\<in>{1..5::int}. body_field body ''rating'' = Some (JNum (Fin (rat_of_int n)))))"
  then have v: "\<not> invalid_rating (body_field body ''rating'')"
    by (simp add: invalid_rating_iff)
  define rv where "rv =
     \<lparr>review_id = (m, now_id), movieId = m, author = displayName u,
      rating = (if body_field body ''rating'' = Some JNull then None
                else Some (the_number (body_field body ''rating''))),
      content = trim c, createdAt = now_created, userId = user_id u\<rparr>"
  define f1 where "f1 = writeStore ((persisted f)\<lparr>reviews := rv # reviews (persisted f)\<rparr>)
      (ensureStore f)"
  have post: "post_api_reviews (Some u) body now_id now_created f
      = (Response 201 (ReviewPayload rv), f1)"
    using h assms v
    by (simp add: post_api_reviews_def requireAuth_def reviews_handler_ok [OF assms _ _ v]
        rv_def f1_def Let_def)
  have stored: "reviews (persisted f1) = rv # reviews (persisted f)"
    by (simp add: f1_def persisted_writeStore)
  have f1_exists: "ensureStore f1 = f1"
    by (simp add: f1_def writeStore_def ensureStore_def)
  have first: "\<exists>rest. get_api_reviews reader (Fin m) f1
       = (Response 200 (ReviewsPayload (rv # rest)), f1)"
    if older: "\<forall>r\<in>set (reviews (persisted f)). movieId r = m \<longrightarrow> createdAt r \<le> now_created"
  proof -
    let ?same = "filter (\<lambda>r. strict_equals (movieId r) (Fin m)) (reviews (persisted f))"
    have "\<forall>y\<in>set ?same. - createdAt rv \<le> - createdAt y"
      using older by (simp add: rv_def)
    then have "sort_key (\<lambda>r. - createdAt r) (rv # ?same) = rv # sort_key (\<lambda>r. - createdAt r) ?same"
      by (rule sort_key_first)
    moreover have "strict_equals (movieId rv) (Fin m)" by (simp add: rv_def)
    ultimately show ?thesis
      by (simp add: get_api_reviews_eq stored f1_exists)
  qed
  show "\<exists>rv f1.
         post_api_reviews (Some u) body now_id now_created f = (Response 201 (ReviewPayload rv), f1) \<and>
         author rv = displayName u \<and> content rv = trim c \<and> movieId rv = m \<and>
         createdAt rv = now_created \<and>
         reviews (persisted f1) = rv # reviews (persisted f) \<and>
         ((\<forall>r\<in>set (reviews (persisted f)). movieId r = m \<longrightarrow> createdAt r \<le> now_created) \<longrightarrow>
          (\<exists>rest. get_api_reviews reader (Fin m) f1
             = (Response 200 (ReviewsPayload (rv # rest)), f1)))"
    using post stored first by (intro exI [of _ rv] exI [of _ f1]) (simp add: rv_def)
next
  assume "\<not> typeof_string (body_field body ''content'') \<or>
      trim (the_string (body_field body ''content'')) = []"
  then show "post_api_reviews (Some u) body now_id now_created f
        = (Response 400 (ErrorMsg ''Review content is required''), f)"
    using assms by (auto simp: post_api_reviews_def requireAuth_def reviews_handler_def)
qed


lemma example_post:
  "post_api_reviews (Some example_user) example_review_body now_id now_created
      (Some (ParsedDoc None (Some [example_old_review])))
    = (Response 201 (ReviewPayload (example_new_review now_id now_created)),
       Some (ParsedDoc (Some [])
         (Some [example_new_review now_id now_created, example_old_review])))"
proof -
  have m: "body_field example_review_body ''movieId'' = Some (JNum (Fin 90002))"
    and c: "body_field example_review_body ''content'' = Some (JStr '' Great film '')"
    and r: "body_field example_review_body ''rating'' = Some (JNum (Fin 4))"
    by (simp_all add: example_review_body_def)
  have t: "trim '' Great film '' = ''Great film''"
    by (simp add: trim_def is_ws_def)
  have v: "\<not> invalid_rating (body_field example_review_body ''rating'')"
    by (simp add: r invalid_rating_def)
  show ?thesis
    by (simp add: post_api_reviews_def requireAuth_def
        reviews_handler_ok [OF m c _ v] t r example_user_def example_new_review_def
        persisted_def writeStore_def JSON_stringify_def Let_def)
qed

theorem review_created_witness:
  "\<exists>rest.
     post_api_reviews (Some example_user) example_review_body 1770000000500 1770000000501
        (Some (ParsedDoc None (Some [example_old_review])))
      = (Response 201 (ReviewPayload (example_new_review 1770000000500 1770000000501)),
         Some (ParsedDoc (Some [])
           (Some [example_new_review 1770000000500 1770000000501, example_old_review]))) \<and>
     get_api_reviews None (Fin 90002)
        (Some (ParsedDoc (Some [])
           (Some [example_new_review 1770000000500 1770000000501, example_old_review])))
      = (Response 200 (ReviewsPayload (example_new_review 1770000000500 1770000000501 # rest)),
         Some (ParsedDoc (Some [])
           (Some [example_new_review 1770000000500 1770000000501, example_old_review])))"
proof -
  let ?f = "Some (ParsedDoc None (Some [example_old_review]))"
  have m: "body_field example_review_body ''movieId'' = Some (JNum (Fin 90002))"
    and c: "body_field example_review_body ''content'' = Some (JStr '' Great film '')"
    and r: "body_field example_review_body ''rating'' = Some (JNum (Fin (rat_of_int 4)))"
    by (simp_all add: example_review_body_def)
  have t: "trim '' Great film '' = ''Great film''"
    by (simp add: trim_def is_ws_def)
  have older: "\<forall>r\<in>set (reviews (persisted ?f)). movieId r = 90002 \<longrightarrow> createdAt r \<le> 1770000000501"
    by (simp add: persisted_def example_old_review_def)
  have valid: "body_field example_review_body ''content'' = Some (JStr '' Great film '') \<and>
      trim '' Great film '' \<noteq> [] \<and>
      (body_field example_review_body ''rating'' = Some JNull \<or>
       (\<exists>n\<in>{1..5::int}. body_field example_review_body ''rating'' = Some (JNum (Fin (rat_of_int n)))))"
    using c r t by auto
  from review_created [OF m, of "'' Great film ''" example_user 1770000000500 1770000000501 ?f None]
    valid older
  obtain rv f1 rest where
    post: "post_api_reviews (Some example_user) example_review_body 1770000000500 1770000000501 ?f
        = (Response 201 (ReviewPayload rv), f1)"
    and get: "get_api_reviews None (Fin 90002) f1 = (Response 200 (ReviewsPayload (rv # rest)), f1)"
    by blast
  with example_post [of 1770000000500 1770000000501] show ?thesis by auto
qed

text \<open>
  C5 as stated fails where the store holds a review of the movie with a later
  \<open>createdAt\<close> than the clock reads at the request (the wall clock was set back, or the
  file came from a host whose clock is ahead): the new review is at the front of the
  stored list, and the listing, which orders by \<open>createdAt\<close>, puts it second.
\<close>

theorem review_not_first_counterexample:
  "post_api_reviews (Some example_user) example_review_body 1769999999000 1769999999001
      (Some (ParsedDoc None (Some [example_old_review])))
    = (Response 201 (ReviewPayload (example_new_review 1769999999000 1769999999001)),
       Some (ParsedDoc (Some [])
         (Some [example_new_review 1769999999000 1769999999001, example_old_review]))) \<and>
   get_api_reviews None (Fin 90002)
      (Some (ParsedDoc (Some [])
         (Some [example_new_review 1769999999000 1769999999001, example_old_review])))
    = (Response 200
         (ReviewsPayload [example_old_review, example_new_review 1769999999000 1769999999001]),
       Some (ParsedDoc (Some [])
         (Some [example_new_review 1769999999000 1769999999001, example_old_review]))) \<and>
   example_old_review \<noteq> example_new_review 1769999999000 1769999999001"
  by (simp add: example_post get_api_reviews_def readStore_total persisted_def ensureStore_def)
    (simp add: example_new_review_def example_old_review_def)

subsection \<open>One record per user\<close>

lemma rating_handler_ok:
  assumes "body_field body ''movieId'' = Some (JNum (Fin m))"
    and "\<not> invalid_rating (body_field body ''rating'')"
  shows "rating_handler body u f =
    (let rt = body_field body ''rating'';
         userRecord = userRecord_of (persisted f) u;
         rs0 = or_empty (ratings userRecord);
         rs1 = (if rt = Some JNull then AList.delete m rs0 else AList.update m (the_number rt) rs0)
     in (Response 200 (RatingsPayload rs1),
         writeStore ((persisted f)\<lparr>users :=
           AList.update (user_id u) (userRecord\<lparr>ratings := Some rs1\<rparr>) (users (persisted f))\<rparr>)
           (ensureStore f)))"
  using assms by (simp add: rating_handler_def readStore_total Let_def)

lemma get_api_me_eq:
  "get_api_me (Some u) f =
     (Response 200 (UserPayload (Some u)),
      writeStore ((persisted f)\<lparr>users :=
        AList.update (user_id u)
          ((case map_of (users (persisted f)) (user_id u) of
              None \<Rightarrow> \<lparr>watchStates = Some [], ratings = Some [], profile = None\<rparr>
            | Some r \<Rightarrow> r)\<lparr>profile := Some u\<rparr>)
          (users (persisted f))\<rparr>)
        (ensureStore f))"
  by (simp add: get_api_me_def readStore_total Let_def)

lemma finite_cases:
  assumes "Number_isFinite x"
  obtains m where "x = Some (JNum (Fin m))"
  using assms by (cases x rule: Number_isFinite.cases) simp_all

text \<open>
  What a call leaves in the users mapping: an upserting call assigns at the caller's key,
  every other call leaves the mapping as it was.
\<close>

lemma users_after_dispatch:
  "\<exists>r. users (persisted (snd (dispatch (Some u) c f))) =
        (if upserts c then AList.update (user_id u) r (users (persisted f))
         else users (persisted f))"
proof (cases c)
  case GetMe
  then show ?thesis by (auto simp: get_api_me_eq persisted_writeStore)
next
  case GetUserData
  then show ?thesis
    by (auto simp: get_api_user_data_def requireAuth_def user_data_handler_eq persisted_writeStore)
next
  case (GetReviews mid)
  then show ?thesis by (simp add: get_api_reviews_eq persisted_ensureStore)
next
  case (PutStatus body)
  show ?thesis
  proof (cases "upserts c")
    case True
    with PutStatus obtain m where m: "body_field body ''movieId'' = Some (JNum (Fin m))"
      and v: "\<not> invalid_status (body_field body ''status'')"
      by (auto elim: finite_cases)
    show ?thesis
      using True PutStatus
      by (auto simp: put_api_status_def requireAuth_def status_handler_ok [OF m v] Let_def
          persisted_writeStore simp del: upserts.simps)
  next
    case False
    with PutStatus show ?thesis
      by (auto simp: put_api_status_def requireAuth_def status_handler_def Let_def)
  qed
next
  case (PutRating body)
  show ?thesis
  proof (cases "upserts c")
    case True
    with PutRating obtain m where m: "body_field body ''movieId'' = Some (JNum (Fin m))"
      and v: "\<not> invalid_rating (body_field body ''rating'')"
      by (auto elim: finite_cases)
    show ?thesis
      using True PutRating
      by (auto simp: put_api_rating_def requireAuth_def rating_handler_ok [OF m v] Let_def
          persisted_writeStore simp del: upserts.simps)
  next
    case False
    with PutRating show ?thesis
      by (auto simp: put_api_rating_def requireAuth_def rating_handler_def Let_def)
  qed
next
  case (PostReviews body n1 n2)
  have "users (persisted (snd (reviews_handler body n1 n2 u f))) = users (persisted f)"
    by (simp add: reviews_handler_def readStore_total Let_def persisted_writeStore)
  with PostReviews show ?thesis
    by (simp add: post_api_reviews_def requireAuth_def)
qed

lemma distinct_after_dispatch:
  assumes "distinct (map fst (users (persisted f)))"
  shows "distinct (map fst (users (persisted (snd (dispatch (Some u) c f)))))"
proof -
  obtain r where "users (persisted (snd (dispatch (Some u) c f))) =
        (if upserts c then AList.update (user_id u) r (users (persisted f))
         else users (persisted f))"
    using users_after_dispatch by blast
  with assms show ?thesis by (simp add: distinct_update)
qed

lemma keys_after_dispatch:
  "fst ` set (users (persisted (snd (dispatch (Some u) c f)))) =
     (if upserts c then insert (user_id u) (fst ` set (users (persisted f)))
      else fst ` set (users (persisted f)))"
proof -
  obtain r where "users (persisted (snd (dispatch (Some u) c f))) =
        (if upserts c then AList.update (user_id u) r (users (persisted f))
         else users (persisted f))"
    using users_after_dispatch by blast
  then show ?thesis by (simp add: dom_update)
qed

lemma distinct_after_run:
  "distinct (map fst (users (persisted f))) \<Longrightarrow>
   distinct (map fst (users (persisted (run cs f))))"
proof (induction cs arbitrary: f)
  case Nil
  then show ?case by simp
next
  case (Cons uc cs)
  obtain u c where uc: "uc = (u, c)" by (cases uc)
  from Cons.prems have "distinct (map fst (users (persisted (snd (dispatch (Some u) c f)))))"
    by (rule distinct_after_dispatch)
  then show ?case using Cons.IH uc by simp
qed

lemma keys_after_run:
  "fst ` set (users (persisted (run cs f))) =
     fst ` set (users (persisted f)) \<union> {user_id u | u c. (u, c) \<in> set cs \<and> upserts c}"
proof (induction cs arbitrary: f)
  case Nil
  then show ?case by simp
next
  case (Cons uc cs)
  obtain u c where uc: "uc = (u, c)" by (cases uc)
  show ?case
    unfolding uc run.simps Cons.IH keys_after_dispatch by auto
qed

lemma one_entry:
  "distinct (map fst al) \<Longrightarrow> k \<in> fst ` set al \<Longrightarrow>
   length (filter (\<lambda>p. fst p = k) al) = 1"
proof (induction al)
  case Nil
  then show ?case by simp
next
  case (Cons p al)
  show ?case
  proof (cases "fst p = k")
    case True
    with Cons.prems have "k \<notin> fst ` set al" by auto
    then have "filter (\<lambda>p. fst p = k) al = []"
      by (auto simp: filter_empty_conv)
    with True show ?thesis by simp
  next
    case False
    with Cons show ?thesis by auto
  qed
qed

lemma upserts_iff_200:
  "upserts c \<longleftrightarrow>
     (\<exists>p. fst (dispatch (Some u) c f) = Response 200 p) \<and> (\<forall>mid. c \<noteq> GetReviews mid)"
proof (cases c)
  case GetMe
  then show ?thesis by (simp add: get_api_me_eq)
next
  case GetUserData
  then show ?thesis
    by (simp add: get_api_user_data_def requireAuth_def user_data_handler_eq)
next
  case (GetReviews mid)
  then show ?thesis by simp
next
  case (PutStatus body)
  then show ?thesis
    by (auto simp: put_api_status_def requireAuth_def status_handler_def readStore_total Let_def)
next
  case (PutRating body)
  then show ?thesis
    by (auto simp: put_api_rating_def requireAuth_def rating_handler_def readStore_total Let_def)
next
  case (PostReviews body n1 n2)
  then show ?thesis
    by (auto simp: post_api_reviews_def requireAuth_def reviews_handler_def readStore_total Let_def)
qed


lemma userRecord_of_absent:
  "map_of (users s) (user_id u) = None \<Longrightarrow>
   userRecord_of s u = \<lparr>watchStates = Some [], ratings = Some [], profile = Some u\<rparr>"
  by (simp add: userRecord_of_def)

lemma created_with_defaults:
  assumes absent: "map_of (users (persisted f)) (user_id u) = None"
  shows "map_of (users (persisted (snd (get_api_me (Some u) f)))) (user_id u)
           = Some \<lparr>watchStates = Some [], ratings = Some [], profile = Some u\<rparr>"
    and "map_of (users (persisted (snd (get_api_user_data (Some u) f)))) (user_id u)
           = Some \<lparr>watchStates = Some [], ratings = Some [], profile = Some u\<rparr>"
    and "upserts (PutStatus body) \<Longrightarrow>
         \<exists>ws. map_of (users (persisted (snd (put_api_status (Some u) body f)))) (user_id u)
                = Some \<lparr>watchStates = Some ws, ratings = Some [], profile = Some u\<rparr> \<and>
              fst ` set ws \<subseteq> {the_number (body_field body ''movieId'')}"
    and "upserts (PutRating body) \<Longrightarrow>
         \<exists>rs. map_of (users (persisted (snd (put_api_rating (Some u) body f)))) (user_id u)
                = Some \<lparr>watchStates = Some [], ratings = Some rs, profile = Some u\<rparr> \<and>
              fst ` set rs \<subseteq> {the_number (body_field body ''movieId'')}"
proof -
  show "map_of (users (persisted (snd (get_api_me (Some u) f)))) (user_id u)
           = Some \<lparr>watchStates = Some [], ratings = Some [], profile = Some u\<rparr>"
    using absent by (simp add: get_api_me_eq persisted_writeStore update_conv')
  show "map_of (users (persisted (snd (get_api_user_data (Some u) f)))) (user_id u)
           = Some \<lparr>watchStates = Some [], ratings = Some [], profile = Some u\<rparr>"
    using absent
    by (simp add: get_api_user_data_def requireAuth_def user_data_handler_eq persisted_writeStore
        update_conv' userRecord_of_absent)
next
  assume "upserts (PutStatus body)"
  then obtain m where m: "body_field body ''movieId'' = Some (JNum (Fin m))"
    and v: "\<not> invalid_status (body_field body ''status'')"
    by (auto elim: finite_cases)
  show "\<exists>ws. map_of (users (persisted (snd (put_api_status (Some u) body f)))) (user_id u)
                = Some \<lparr>watchStates = Some ws, ratings = Some [], profile = Some u\<rparr> \<and>
              fst ` set ws \<subseteq> {the_number (body_field body ''movieId'')}"
    using absent m
    by (simp add: put_api_status_def requireAuth_def status_handler_ok [OF m v] Let_def
        persisted_writeStore update_conv' userRecord_of_absent)
next
  assume "upserts (PutRating body)"
  then obtain m where m: "body_field body ''movieId'' = Some (JNum (Fin m))"
    and v: "\<not> invalid_rating (body_field body ''rating'')"
    by (auto elim: finite_cases)
  show "\<exists>rs. map_of (users (persisted (snd (put_api_rating (Some u) body f)))) (user_id u)
                = Some \<lparr>watchStates = Some [], ratings = Some rs, profile = Some u\<rparr> \<and>
              fst ` set rs \<subseteq> {the_number (body_field body ''movieId'')}"
    using absent m
    by (simp add: put_api_rating_def requireAuth_def rating_handler_ok [OF m v] Let_def
        persisted_writeStore update_conv' userRecord_of_absent)
qed

text \<open>
  C9. The users mapping is a JavaScript object, kept here as the list of its entries. From
  a file whose entries have distinct keys, after every sequence of calls made with an
  authenticated session: the keys are still distinct; the keys are those the file had and
  the ids of the callers of upserting calls (\<^verbatim>\<open>GET /api/me\<close>, \<^verbatim>\<open>GET /api/user-data\<close>,
  and \<^verbatim>\<open>PUT /api/status\<close> and \<^verbatim>\<open>PUT /api/rating\<close> that pass validation; a \<^verbatim>\<open>PUT\<close>
  answered with 400 leaves the store as it was); and every such caller has exactly one
  entry. Where the caller had no record, each of the four creates it with the session's
  profile and empty mappings, into which a \<^verbatim>\<open>PUT\<close> has put at most its own movie id.
\<close>

theorem one_record_per_user:
  assumes "distinct (map fst (users (persisted f)))"
  shows
    "distinct (map fst (users (persisted (run cs f)))) \<and>
     fst ` set (users (persisted (run cs f))) =
       fst ` set (users (persisted f)) \<union> {user_id u | u c. (u, c) \<in> set cs \<and> upserts c} \<and>
     (\<forall>(u, c) \<in> set cs. upserts c \<longrightarrow>
        length (filter (\<lambda>p. fst p = user_id u) (users (persisted (run cs f)))) = 1) \<and>
     (map_of (users (persisted f)) (user_id v) = None \<longrightarrow>
        map_of (users (persisted (snd (get_api_me (Some v) f)))) (user_id v)
          = Some \<lparr>watchStates = Some [], ratings = Some [], profile = Some v\<rparr> \<and>
        map_of (users (persisted (snd (get_api_user_data (Some v) f)))) (user_id v)
          = Some \<lparr>watchStates = Some [], ratings = Some [], profile = Some v\<rparr> \<and>
        (upserts (PutStatus body) \<longrightarrow>
           (\<exists>ws. map_of (users (persisted (snd (put_api_status (Some v) body f)))) (user_id v)
                  = Some \<lparr>watchStates = Some ws, ratings = Some [], profile = Some v\<rparr> \<and>
                fst ` set ws \<subseteq> {the_number (body_field body ''movieId'')})) \<and>
        (upserts (PutRating body) \<longrightarrow>
           (\<exists>rs. map_of (users (persisted (snd (put_api_rating (Some v) body f)))) (user_id v)
                  = Some \<lparr>watchStates = Some [], ratings = Some rs, profile = Some v\<rparr> \<and>
                fst ` set rs \<subseteq> {the_number (body_field body ''movieId'')})))"
proof (intro conjI)
  show d: "distinct (map fst (users (persisted (run cs f))))"
    using assms by (rule distinct_after_run)
  show k: "fst ` set (users (persisted (run cs f))) =
       fst ` set (users (persisted f)) \<union> {user_id u | u c. (u, c) \<in> set cs \<and> upserts c}"
    by (rule keys_after_run)
  show "\<forall>(u, c) \<in> set cs. upserts c \<longrightarrow>
        length (filter (\<lambda>p. fst p = user_id u) (users (persisted (run cs f)))) = 1"
  proof (clarify)
    fix u c
    assume "(u, c) \<in> set cs" and "upserts c"
    then have "user_id u \<in> fst ` set (users (persisted (run cs f)))"
      unfolding k by blast
    with d show "length (filter (\<lambda>p. fst p = user_id u) (users (persisted (run cs f)))) = 1"
      by (rule one_entry)
  qed
  show "map_of (users (persisted f)) (user_id v) = None \<longrightarrow>
        map_of (users (persisted (snd (get_api_me (Some v) f)))) (user_id v)
          = Some \<lparr>watchStates = Some [], ratings = Some [], profile = Some v\<rparr> \<and>
        map_of (users (persisted (snd (get_api_user_data (Some v) f)))) (user_id v)
          = Some \<lparr>watchStates = Some [], ratings = Some [], profile = Some v\<rparr> \<and>
        (upserts (PutStatus body) \<longrightarrow>
           (\<exists>ws. map_of (users (persisted (snd (put_api_status (Some v) body f)))) (user_id v)
                  = Some \<lparr>watchStates = Some ws, ratings = Some [], profile = Some v\<rparr> \<and>
                fst ` set ws \<subseteq> {the_number (body_field body ''movieId'')})) \<and>
        (upserts (PutRating body) \<longrightarrow>
           (\<exists>rs. map_of (users (persisted (snd (put_api_rating (Some v) body f)))) (user_id v)
                  = Some \<lparr>watchStates = Some [], ratings = Some rs, profile = Some v\<rparr> \<and>
                fst ` set rs \<subseteq> {the_number (body_field body ''movieId'')}))"
  proof (rule impI)
    assume absent: "map_of (users (persisted f)) (user_id v) = None"
    from created_with_defaults [OF absent]
    show "map_of (users (persisted (snd (get_api_me (Some v) f)))) (user_id v)
          = Some \<lparr>watchStates = Some [], ratings = Some [], profile = Some v\<rparr> \<and>
        map_of (users (persisted (snd (get_api_user_data (Some v) f)))) (user_id v)
          = Some \<lparr>watchStates = Some [], ratings = Some [], profile = Some v\<rparr> \<and>
        (upserts (PutStatus body) \<longrightarrow>
           (\<exists>ws. map_of (users (persisted (snd (put_api_status (Some v) body f)))) (user_id v)
                  = Some \<lparr>watchStates = Some ws, ratings = Some [], profile = Some v\<rparr> \<and>
                fst ` set ws \<subseteq> {the_number (body_field body ''movieId'')})) \<and>
        (upserts (PutRating body) \<longrightarrow>
           (\<exists>rs. map_of (users (persisted (snd (put_api_rating (Some v) body f)))) (user_id v)
                  = Some \<lparr>watchStates = Some [], ratings = Some rs, profile = Some v\<rparr> \<and>
                fst ` set rs \<subseteq> {the_number (body_field body ''movieId'')}))"
      by blast
  qed
qed

theorem one_record_per_user_witness:
  "distinct (map fst (users (persisted (run
      [(example_user, PutRating (Some (JObj [(''movieId'', JNum (Fin 90001))]))),
       (example_user, GetMe),
       (example_user, PutStatus (Some (JObj [(''movieId'', JNum (Fin 90001)),
                                             (''status'', JStr ''watched'')])))]
      None)))) \<and>
   length (filter (\<lambda>p. fst p = ''1001'') (users (persisted (run
      [(example_user, PutRating (Some (JObj [(''movieId'', JNum (Fin 90001))]))),
       (example_user, GetMe),
       (example_user, PutStatus (Some (JObj [(''movieId'', JNum (Fin 90001)),
                                             (''status'', JStr ''watched'')])))]
      None)))) = 1 \<and>
   map_of (users (persisted (snd (get_api_me (Some example_user) None)))) ''1001''
     = Some \<lparr>watchStates = Some [], ratings = Some [], profile = Some example_user\<rparr>"
proof -
  let ?cs = "[(example_user, PutRating (Some (JObj [(''movieId'', JNum (Fin 90001))]))),
       (example_user, GetMe),
       (example_user, PutStatus (Some (JObj [(''movieId'', JNum (Fin 90001)),
                                             (''status'', JStr ''watched'')])))]"
  have d: "distinct (map fst (users (persisted None)))"
    by (simp add: persisted_def initial_def)
  have absent: "map_of (users (persisted None)) (user_id example_user) = None"
    by (simp add: persisted_def initial_def)
  have call: "(example_user, GetMe) \<in> set ?cs" and ups: "upserts GetMe"
    by simp_all
  have uid: "user_id example_user = ''1001''"
    by (simp add: example_user_def)
  note t = one_record_per_user [OF d, of ?cs example_user None]
  from t have a1: "distinct (map fst (users (persisted (run ?cs None))))"
    by (rule conjunct1)
  from t have "\<forall>(u, c) \<in> set ?cs. upserts c \<longrightarrow>
      length (filter (\<lambda>p. fst p = user_id u) (users (persisted (run ?cs None)))) = 1"
    by (elim conjE)
  from bspec [OF this call] ups
  have a2: "length (filter (\<lambda>p. fst p = user_id example_user)
      (users (persisted (run ?cs None)))) = 1"
    by (simp only: split_conv)
  from t absent
  have a3: "map_of (users (persisted (snd (get_api_me (Some example_user) None))))
      (user_id example_user)
     = Some \<lparr>watchStates = Some [], ratings = Some [], profile = Some example_user\<rparr>"
    by (elim conjE) (erule impE, assumption, erule conjE, assumption)
  from a1 a2 a3 show ?thesis
    unfolding uid by (intro conjI)
qed

subsection \<open>What a successful update touches\<close>

lemma rating_200:
  assumes "fst (put_api_rating (Some u) body f) = Response 200 p"
  shows "upserts (PutRating body)"
  using assms upserts_iff_200 [of "PutRating body" u f] by auto

lemma status_200:
  assumes "fst (put_api_status (Some u) body f) = Response 200 p"
  shows "upserts (PutStatus body)"
  using assms upserts_iff_200 [of "PutStatus body" u f] by auto

text \<open>
  C10. An authenticated \<^verbatim>\<open>PUT /api/rating\<close> that answers 200 leaves the reviews and
  every other user's record as they were, and the caller's record with the same
  \<open>watchStates\<close> and \<open>profile\<close> and the same rating at every movie id but the
  request's. A \<^verbatim>\<open>PUT /api/status\<close> that answers 200 does the same with \<open>ratings\<close> and
  \<open>watchStates\<close> exchanged. The caller's record before the request is the one the handler
  works on: the stored record, or, for a caller without one, the record with empty
  mappings and the session's profile that the handler then stores.
\<close>

theorem put_changes_one_entry:
  "(fst (put_api_rating (Some u) body f) = Response 200 p \<longrightarrow>
      reviews (persisted (snd (put_api_rating (Some u) body f))) = reviews (persisted f) \<and>
      (\<forall>k. k \<noteq> user_id u \<longrightarrow>
         map_of (users (persisted (snd (put_api_rating (Some u) body f)))) k
           = map_of (users (persisted f)) k) \<and>
      (\<exists>r. map_of (users (persisted (snd (put_api_rating (Some u) body f)))) (user_id u) = Some r \<and>
           watchStates r = watchStates (userRecord_of (persisted f) u) \<and>
           profile r = profile (userRecord_of (persisted f) u) \<and>
           (\<forall>k. k \<noteq> the_number (body_field body ''movieId'') \<longrightarrow>
              map_of (or_empty (ratings r)) k
                = map_of (or_empty (ratings (userRecord_of (persisted f) u))) k))) \<and>
   (fst (put_api_status (Some u) body f) = Response 200 p \<longrightarrow>
      reviews (persisted (snd (put_api_status (Some u) body f))) = reviews (persisted f) \<and>
      (\<forall>k. k \<noteq> user_id u \<longrightarrow>
         map_of (users (persisted (snd (put_api_status (Some u) body f)))) k
           = map_of (users (persisted f)) k) \<and>
      (\<exists>r. map_of (users (persisted (snd (put_api_status (Some u) body f)))) (user_id u) = Some r \<and>
           ratings r = ratings (userRecord_of (persisted f) u) \<and>
           profile r = profile (userRecord_of (persisted f) u) \<and>
           (\<forall>k. k \<noteq> the_number (body_field body ''movieId'') \<longrightarrow>
              map_of (or_empty (watchStates r)) k
                = map_of (or_empty (watchStates (userRecord_of (persisted f) u))) k)))"
proof (rule conjI; rule impI)
  assume "fst (put_api_rating (Some u) body f) = Response 200 p"
  then have "upserts (PutRating body)" by (rule rating_200)
  then obtain m where m: "body_field body ''movieId'' = Some (JNum (Fin m))"
    and v: "\<not> invalid_rating (body_field body ''rating'')"
    by (auto elim: finite_cases)
  show "reviews (persisted (snd (put_api_rating (Some u) body f))) = reviews (persisted f) \<and>
      (\<forall>k. k \<noteq> user_id u \<longrightarrow>
         map_of (users (persisted (snd (put_api_rating (Some u) body f)))) k
           = map_of (users (persisted f)) k) \<and>
      (\<exists>r. map_of (users (persisted (snd (put_api_rating (Some u) body f)))) (user_id u) = Some r \<and>
           watchStates r = watchStates (userRecord_of (persisted f) u) \<and>
           profile r = profile (userRecord_of (persisted f) u) \<and>
           (\<forall>k. k \<noteq> the_number (body_field body ''movieId'') \<longrightarrow>
              map_of (or_empty (ratings r)) k
                = map_of (or_empty (ratings (userRecord_of (persisted f) u))) k))"
    using m
    by (simp add: put_api_rating_def requireAuth_def rating_handler_ok [OF m v] Let_def
        persisted_writeStore update_conv' delete_conv')
next
  assume "fst (put_api_status (Some u) body f) = Response 200 p"
  then have "upserts (PutStatus body)" by (rule status_200)
  then obtain m where m: "body_field body ''movieId'' = Some (JNum (Fin m))"
    and v: "\<not> invalid_status (body_field body ''status'')"
    by (auto elim: finite_cases)
  show "reviews (persisted (snd (put_api_status (Some u) body f))) = reviews (persisted f) \<and>
      (\<forall>k. k \<noteq> user_id u \<longrightarrow>
         map_of (users (persisted (snd (put_api_status (Some u) body f)))) k
           = map_of (users (persisted f)) k) \<and>
      (\<exists>r. map_of (users (persisted (snd (put_api_status (Some u) body f)))) (user_id u) = Some r \<and>
           ratings r = ratings (userRecord_of (persisted f) u) \<and>
           profile r = profile (userRecord_of (persisted f) u) \<and>
           (\<forall>k. k \<noteq> the_number (body_field body ''movieId'') \<longrightarrow>
              map_of (or_empty (watchStates r)) k
                = map_of (or_empty (watchStates (userRecord_of (persisted f) u))) k))"
    using m
    by (simp add: put_api_status_def requireAuth_def status_handler_ok [OF m v] Let_def
        persisted_writeStore update_conv' delete_conv')
qed


theorem put_changes_one_entry_witness:
  "reviews (persisted (snd (put_api_rating (Some example_user)
      (Some (JObj [(''movieId'', JNum (Fin 90001)), (''rating'', JNum (Fin 5))]))
      (Some (ParsedDoc
         (Some [(''1001'', \<lparr>watchStates = Some [(90002, ''watched'')], ratings = None,
                           profile = Some example_user\<rparr>),
                (''1002'', \<lparr>watchStates = None, ratings = Some [(90001, 2)], profile = None\<rparr>)])
         (Some [example_old_review]))))))
     = [example_old_review] \<and>
   map_of (users (persisted (snd (put_api_rating (Some example_user)
      (Some (JObj [(''movieId'', JNum (Fin 90001)), (''rating'', JNum (Fin 5))]))
      (Some (ParsedDoc
         (Some [(''1001'', \<lparr>watchStates = Some [(90002, ''watched'')], ratings = None,
                           profile = Some example_user\<rparr>),
                (''1002'', \<lparr>watchStates = None, ratings = Some [(90001, 2)], profile = None\<rparr>)])
         (Some [example_old_review]))))))) ''1002''
     = Some \<lparr>watchStates = None, ratings = Some [(90001, 2)], profile = None\<rparr>"
proof -
  let ?body = "Some (JObj [(''movieId'', JNum (Fin 90001)), (''rating'', JNum (Fin 5))])"
  let ?f = "Some (ParsedDoc
         (Some [(''1001'', \<lparr>watchStates = Some [(90002, ''watched'')], ratings = None,
                           profile = Some example_user\<rparr>),
                (''1002'', \<lparr>watchStates = None, ratings = Some [(90001, 2)], profile = None\<rparr>)])
         (Some [example_old_review]))"
  have m: "body_field ?body ''movieId'' = Some (JNum (Fin 90001))"
    by simp
  have v: "\<not> invalid_rating (body_field ?body ''rating'')"
    by (simp add: invalid_rating_def)
  have ok: "fst (put_api_rating (Some example_user) ?body ?f)
      = Response 200 (RatingsPayload [(90001, 5)])"
    by (simp add: put_api_rating_def requireAuth_def rating_handler_ok [OF m v] Let_def
        persisted_def userRecord_of_def example_user_def)
  have other: "''1002'' \<noteq> user_id example_user"
    by (simp add: example_user_def)
  have before: "reviews (persisted ?f) = [example_old_review]"
    "map_of (users (persisted ?f)) ''1002''
       = Some \<lparr>watchStates = None, ratings = Some [(90001, 2)], profile = None\<rparr>"
    by (simp_all add: persisted_def)
  from put_changes_one_entry [of example_user ?body ?f "RatingsPayload [(90001, 5)]"] ok other
  have "reviews (persisted (snd (put_api_rating (Some example_user) ?body ?f)))
          = reviews (persisted ?f)"
    and "map_of (users (persisted (snd (put_api_rating (Some example_user) ?body ?f)))) ''1002''
          = map_of (users (persisted ?f)) ''1002''"
    by blast+
  with before show ?thesis by simp
qed

section \<open>Properties of the recommendation heuristic\<close>

subsection \<open>The accumulated weights\<close>

lemma weight_in_add_weight:
  "weight_in (add_weight w g acc) g' = weight_in acc g' + (if g' = g then w else 0)"
  by (simp add: weight_in_def add_weight_def update_conv')

lemma weight_in_fold_add:
  "weight_in (fold (add_weight w) gs acc) g = weight_in acc g + w * count_list gs g"
  by (induction gs arbitrary: acc) (simp_all add: weight_in_add_weight)

lemma distinct_add_weight:
  "distinct (map fst acc) \<Longrightarrow> distinct (map fst (add_weight w g acc))"
  by (simp add: add_weight_def distinct_update)

lemma distinct_fold_add:
  "distinct (map fst acc) \<Longrightarrow> distinct (map fst (fold (add_weight w) gs acc))"
  by (induction gs arbitrary: acc) (simp_all add: distinct_add_weight)

lemma set_update_subset: "set (AList.update k v al) \<subseteq> insert (k, v) (set al)"
  by (induction al) auto

lemma positive_add_weight:
  "0 < w \<Longrightarrow> positive acc \<Longrightarrow> positive (add_weight w g acc)"
  unfolding positive_def add_weight_def
  using set_update_subset [of g "weight_in acc g + w" acc] by fastforce

lemma positive_fold_add:
  "0 < w \<Longrightarrow> positive acc \<Longrightarrow> positive (fold (add_weight w) gs acc)"
  by (induction gs arbitrary: acc) (simp_all add: positive_add_weight)

lemma weight_in_reducer:
  "weight_in (genre_reducer ws rs acc movie) g =
     weight_in acc g + spec_weight ws rs movie * count_list (or_empty (genre_ids movie)) g"
  by (cases "rs (movie_id movie)")
    (auto simp: genre_reducer_def spec_weight_def Let_def weight_in_fold_add)

lemma distinct_reducer:
  "distinct (map fst acc) \<Longrightarrow> distinct (map fst (genre_reducer ws rs acc movie))"
  by (simp add: genre_reducer_def Let_def distinct_fold_add)

lemma positive_reducer:
  "positive acc \<Longrightarrow> positive (genre_reducer ws rs acc movie)"
  by (simp add: genre_reducer_def Let_def positive_fold_add)

lemma weight_in_fold_reducer:
  "weight_in (fold (\<lambda>movie acc. genre_reducer ws rs acc movie) movies acc) g =
     weight_in acc g + spec_genre_weight ws rs movies g"
  by (induction movies arbitrary: acc)
    (simp_all add: spec_genre_weight_def weight_in_reducer)

lemma distinct_fold_reducer:
  "distinct (map fst acc) \<Longrightarrow>
   distinct (map fst (fold (\<lambda>movie acc. genre_reducer ws rs acc movie) movies acc))"
  by (induction movies arbitrary: acc) (simp_all add: distinct_reducer)

lemma positive_fold_reducer:
  "positive acc \<Longrightarrow> positive (fold (\<lambda>movie acc. genre_reducer ws rs acc movie) movies acc)"
  by (induction movies arbitrary: acc) (simp_all add: positive_reducer)

lemma weight_in_genre_weights:
  "weight_in (genre_weights ws rs movies) g = spec_genre_weight ws rs movies g"
  by (simp add: genre_weights_def weight_in_fold_reducer) (simp add: weight_in_def)

lemma distinct_genre_weights: "distinct (map fst (genre_weights ws rs movies))"
  by (simp add: genre_weights_def distinct_fold_reducer)

lemma positive_genre_weights: "positive (genre_weights ws rs movies)"
  unfolding genre_weights_def by (rule positive_fold_reducer) (simp add: positive_def)

text \<open>An entry of the accumulator is a genre with its accumulated weight, which is positive.\<close>

lemma entry_iff:
  "(g, w) \<in> set (genre_weights ws rs movies) \<longleftrightarrow>
     0 < w \<and> w = spec_genre_weight ws rs movies g"
proof
  assume e: "(g, w) \<in> set (genre_weights ws rs movies)"
  then have "map_of (genre_weights ws rs movies) g = Some w"
    using distinct_genre_weights by simp
  then have "weight_in (genre_weights ws rs movies) g = w"
    by (simp add: weight_in_def)
  moreover from e positive_genre_weights have "0 < w"
    by (fastforce simp: positive_def)
  ultimately show "0 < w \<and> w = spec_genre_weight ws rs movies g"
    by (simp add: weight_in_genre_weights)
next
  assume h: "0 < w \<and> w = spec_genre_weight ws rs movies g"
  then have "weight_in (genre_weights ws rs movies) g = w"
    by (simp add: weight_in_genre_weights)
  with h have "map_of (genre_weights ws rs movies) g = Some w"
    by (auto simp: weight_in_def split: option.splits)
  then show "(g, w) \<in> set (genre_weights ws rs movies)"
    by (rule map_of_SomeD)
qed

lemma map_of_genre_weights:
  "map_of (genre_weights ws rs movies) g =
     (if spec_genre_weight ws rs movies g = 0 then None
      else Some (spec_genre_weight ws rs movies g))"
proof (cases "map_of (genre_weights ws rs movies) g")
  case None
  then have "weight_in (genre_weights ws rs movies) g = 0" by (simp add: weight_in_def)
  with None show ?thesis by (simp add: weight_in_genre_weights)
next
  case (Some w)
  then have "(g, w) \<in> set (genre_weights ws rs movies)" by (rule map_of_SomeD)
  with Some show ?thesis by (simp add: entry_iff)
qed


subsection \<open>The two genres selected\<close>

lemma take_drop_sorted:
  assumes "sorted_wrt P xs" and "x \<in> set (take n xs)" and "y \<in> set (drop n xs)"
  shows "P x y"
proof -
  from assms(1) have "sorted_wrt P (take n xs @ drop n xs)" by simp
  with assms(2,3) show ?thesis unfolding sorted_wrt_append by blast
qed

lemma keys_genre_weights:
  "set (map fst (genre_weights ws rs movies)) = {g. 0 < spec_genre_weight ws rs movies g}"
proof (rule set_eqI)
  fix g
  have "g \<in> set (map fst (genre_weights ws rs movies)) \<longleftrightarrow>
      (\<exists>w. (g, w) \<in> set (genre_weights ws rs movies))"
    by force
  then show "g \<in> set (map fst (genre_weights ws rs movies)) \<longleftrightarrow>
      g \<in> {g. 0 < spec_genre_weight ws rs movies g}"
    by (simp add: entry_iff)
qed

text \<open>
  The sorted entries, from which \<open>rankedGenres\<close> takes the first two: the genres of
  positive weight, each once and with its weight, in descending order of weight.
\<close>

lemma ranked_entries:
  obtains E where
    "rankedGenres ws rs movies = map fst (take 2 E)"
    "distinct (map fst E)"
    "sorted_wrt (\<lambda>x y. snd y \<le> snd x) E"
    "length E = card {g. 0 < spec_genre_weight ws rs movies g}"
    "\<And>g w. (g, w) \<in> set E \<longleftrightarrow> 0 < w \<and> w = spec_genre_weight ws rs movies g"
proof -
  define E where
    "E = sort_key (\<lambda>e. - int (snd e)) (Object_entries (genre_weights ws rs movies))"
  have s: "set E = set (genre_weights ws rs movies)"
    by (simp add: E_def Object_entries_def)
  have 1: "rankedGenres ws rs movies = map fst (take 2 E)"
    by (simp add: rankedGenres_def E_def)
  have "distinct (map fst (genre_weights ws rs movies))"
    by (rule distinct_genre_weights)
  then have 2: "distinct (map fst E)"
    by (simp add: distinct_map E_def Object_entries_def)
  have "sorted (map (\<lambda>e. - int (snd e)) E)"
    unfolding E_def by (rule sorted_sort_key)
  then have 3: "sorted_wrt (\<lambda>x y. snd y \<le> snd x) E"
    by (simp add: sorted_map)
  have "length E = length (map fst (genre_weights ws rs movies))"
    by (simp add: E_def Object_entries_def)
  also have "\<dots> = card (set (map fst (genre_weights ws rs movies)))"
    using distinct_genre_weights [of ws rs movies] by (simp only: distinct_card)
  finally have 4: "length E = card {g. 0 < spec_genre_weight ws rs movies g}"
    by (simp only: keys_genre_weights)
  have 5: "(g, w) \<in> set E \<longleftrightarrow> 0 < w \<and> w = spec_genre_weight ws rs movies g" for g w
    unfolding s by (rule entry_iff)
  from 1 2 3 4 5 show ?thesis by (rule that)
qed

lemma ranked_distinct: "distinct (rankedGenres ws rs movies)"
proof -
  obtain E where R: "rankedGenres ws rs movies = map fst (take 2 E)"
    and dE: "distinct (map fst E)"
    and srt: "sorted_wrt (\<lambda>x y. snd y \<le> snd x) E"
    and len: "length E = card {g. 0 < spec_genre_weight ws rs movies g}"
    and E: "\<And>g w. (g, w) \<in> set E \<longleftrightarrow> 0 < w \<and> w = spec_genre_weight ws rs movies g"
    by (rule ranked_entries [of ws rs movies]) blast
  from R dE show ?thesis by (simp add: take_map [symmetric] distinct_take)
qed

lemma ranked_length:
  "length (rankedGenres ws rs movies) = min 2 (card {g. 0 < spec_genre_weight ws rs movies g})"
proof -
  obtain E where R: "rankedGenres ws rs movies = map fst (take 2 E)"
    and dE: "distinct (map fst E)"
    and srt: "sorted_wrt (\<lambda>x y. snd y \<le> snd x) E"
    and len: "length E = card {g. 0 < spec_genre_weight ws rs movies g}"
    and E: "\<And>g w. (g, w) \<in> set E \<longleftrightarrow> 0 < w \<and> w = spec_genre_weight ws rs movies g"
    by (rule ranked_entries [of ws rs movies]) blast
  from R len show ?thesis by (simp add: min.commute)
qed

lemma ranked_positive:
  assumes "g \<in> set (rankedGenres ws rs movies)"
  shows "0 < spec_genre_weight ws rs movies g"
proof -
  obtain E where R: "rankedGenres ws rs movies = map fst (take 2 E)"
    and dE: "distinct (map fst E)"
    and srt: "sorted_wrt (\<lambda>x y. snd y \<le> snd x) E"
    and len: "length E = card {g. 0 < spec_genre_weight ws rs movies g}"
    and E: "\<And>g w. (g, w) \<in> set E \<longleftrightarrow> 0 < w \<and> w = spec_genre_weight ws rs movies g"
    by (rule ranked_entries [of ws rs movies]) blast
  from assms obtain w where "(g, w) \<in> set (take 2 E)"
    unfolding R by force
  then have "(g, w) \<in> set E" by (rule in_set_takeD)
  then show ?thesis by (simp add: E)
qed

lemma ranked_above_rest:
  assumes "g \<in> set (rankedGenres ws rs movies)" and "g' \<notin> set (rankedGenres ws rs movies)"
  shows "spec_genre_weight ws rs movies g' \<le> spec_genre_weight ws rs movies g"
proof (cases "spec_genre_weight ws rs movies g' = 0")
  case True
  then show ?thesis by simp
next
  case False
  let ?W = "spec_genre_weight ws rs movies"
  obtain E where R: "rankedGenres ws rs movies = map fst (take 2 E)"
    and dE: "distinct (map fst E)"
    and srt: "sorted_wrt (\<lambda>x y. snd y \<le> snd x) E"
    and len: "length E = card {g. 0 < spec_genre_weight ws rs movies g}"
    and E: "\<And>g w. (g, w) \<in> set E \<longleftrightarrow> 0 < w \<and> w = spec_genre_weight ws rs movies g"
    by (rule ranked_entries [of ws rs movies]) blast
  from False have "(g', ?W g') \<in> set E" by (simp add: E)
  then have "(g', ?W g') \<in> set (take 2 E) \<union> set (drop 2 E)"
    by (simp only: set_append [symmetric] append_take_drop_id)
  moreover have "(g', ?W g') \<notin> set (take 2 E)"
    using assms(2) unfolding R by force
  ultimately have low: "(g', ?W g') \<in> set (drop 2 E)" by blast
  from assms(1) obtain w where top: "(g, w) \<in> set (take 2 E)"
    unfolding R by force
  then have "(g, w) \<in> set E" by (rule in_set_takeD)
  then have w: "w = ?W g" by (simp add: E)
  from take_drop_sorted [OF srt top low] w show ?thesis by simp
qed

lemma ranked_sorted:
  "sorted_wrt (\<lambda>a b. spec_genre_weight ws rs movies b \<le> spec_genre_weight ws rs movies a)
     (rankedGenres ws rs movies)"
proof -
  let ?W = "spec_genre_weight ws rs movies"
  obtain E where R: "rankedGenres ws rs movies = map fst (take 2 E)"
    and dE: "distinct (map fst E)"
    and srt: "sorted_wrt (\<lambda>x y. snd y \<le> snd x) E"
    and len: "length E = card {g. 0 < spec_genre_weight ws rs movies g}"
    and E: "\<And>g w. (g, w) \<in> set E \<longleftrightarrow> 0 < w \<and> w = spec_genre_weight ws rs movies g"
    by (rule ranked_entries [of ws rs movies]) blast
  have w: "snd e = ?W (fst e)" if "e \<in> set E" for e
    using that E [of "fst e" "snd e"] by simp
  from srt have "sorted_wrt (\<lambda>x y. ?W (fst y) \<le> ?W (fst x)) E"
    by (rule sorted_wrt_mono_rel [rotated]) (simp add: w)
  then have "sorted_wrt (\<lambda>x y. ?W (fst y) \<le> ?W (fst x)) (take 2 E)"
    by (rule sorted_wrt_take)
  then show ?thesis
    unfolding R by (simp add: sorted_wrt_map)
qed

lemma ranked_order:
  assumes lt: "spec_genre_weight ws rs movies d < spec_genre_weight ws rs movies a"
    and d: "d \<in> set (rankedGenres ws rs movies)"
  shows "rankedGenres ws rs movies = [a, d]"
proof -
  define R where "R = rankedGenres ws rs movies"
  define W where "W = spec_genre_weight ws rs movies"
  have a: "a \<in> set R"
    using ranked_above_rest [OF d, of a] lt unfolding R_def by auto
  from lt have ne: "a \<noteq> d" by auto
  have len: "length R \<le> 2" by (simp add: R_def ranked_length)
  have srt: "sorted_wrt (\<lambda>a b. W b \<le> W a) R"
    unfolding R_def W_def by (rule ranked_sorted)
  have lt': "W d < W a" using lt by (simp add: W_def)
  have d': "d \<in> set R" using d by (simp add: R_def)
  have "R = [a, d]"
  proof (cases R)
    case Nil
    with a show ?thesis by simp
  next
    case (Cons x xs)
    note R1 = this
    show ?thesis
    proof (cases xs)
      case Nil
      with R1 a d' ne show ?thesis by auto
    next
      case (Cons y ys)
      with R1 len have ys: "ys = []" by simp
      with R1 Cons a d' ne srt lt' show ?thesis by auto
    qed
  qed
  then show ?thesis by (simp add: R_def)
qed


lemma action_drama:
  assumes r1: "rs (movie_id m1) = Some 5" and r2: "rs (movie_id m2) = Some 5"
    and g1: "genre_ids m1 = Some [action]" and g2: "genre_ids m2 = Some [action]"
    and w3: "ws (movie_id m3) = Some Watchlist" and g3: "genre_ids m3 = Some [drama]"
    and ne: "action \<noteq> drama"
  shows "spec_genre_weight ws rs [m1, m2, m3] action = 4"
    and "spec_genre_weight ws rs [m1, m2, m3] drama \<in> {1, 2}"
    and "rankedGenres ws rs [m1, m2, m3] = [action, drama]"
proof -
  let ?W = "spec_genre_weight ws rs [m1, m2, m3]"
  show a: "?W action = 4"
    using assms by (simp add: spec_genre_weight_def spec_weight_def)
  show d: "?W drama \<in> {1, 2}"
    using assms by (simp add: spec_genre_weight_def spec_weight_def)
  have other: "?W g = 0" if "g \<noteq> action" "g \<noteq> drama" for g
    using assms that by (simp add: spec_genre_weight_def)
  have pos: "{g. 0 < ?W g} = {action, drama}"
  proof (rule set_eqI)
    fix g
    show "g \<in> {g. 0 < ?W g} \<longleftrightarrow> g \<in> {action, drama}"
    proof (cases "g = action \<or> g = drama")
      case True
      with a d show ?thesis by auto
    next
      case False
      with other [of g] show ?thesis by simp
    qed
  qed
  let ?R = "rankedGenres ws rs [m1, m2, m3]"
  have len: "length ?R = 2"
    using ne by (simp add: ranked_length pos)
  have sub: "set ?R \<subseteq> {action, drama}"
    using ranked_positive [of _ ws rs "[m1, m2, m3]"] pos by blast
  have "card (set ?R) = 2"
    using len ranked_distinct [of ws rs "[m1, m2, m3]"] by (simp add: distinct_card)
  with sub ne have "set ?R = {action, drama}"
    by (intro card_subset_eq) simp_all
  then have "drama \<in> set ?R" by simp
  moreover from a d have "?W drama < ?W action" by auto
  ultimately show "?R = [action, drama]" by (intro ranked_order)
qed

text \<open>
  C6. The accumulator of the heuristic holds, for every genre, the weight in the
  specification's words (an entry exactly for the genres of positive weight). The genres
  selected are distinct, two of them or as many as have positive weight if fewer; each has
  positive weight, none weighs less than a genre left out, and the heavier comes first.
  Given two movies rated 5 and tagged with one genre and a watchlisted movie tagged with
  another, the first genre outweighs the second and is ranked above it.
\<close>

theorem genre_ranking:
  fixes ws rs movies
  defines "W \<equiv> spec_genre_weight ws rs movies"
    and "R \<equiv> rankedGenres ws rs movies"
  shows
    "map_of (genre_weights ws rs movies) g = (if W g = 0 then None else Some (W g)) \<and>
     distinct R \<and> length R = min 2 (card {g. 0 < W g}) \<and>
     (\<forall>g\<in>set R. 0 < W g) \<and>
     (\<forall>g\<in>set R. \<forall>g'. g' \<notin> set R \<longrightarrow> W g' \<le> W g) \<and>
     sorted_wrt (\<lambda>a b. W b \<le> W a) R \<and>
     (rs (movie_id m1) = Some 5 \<and> rs (movie_id m2) = Some 5 \<and>
      genre_ids m1 = Some [action] \<and> genre_ids m2 = Some [action] \<and>
      ws (movie_id m3) = Some Watchlist \<and> genre_ids m3 = Some [drama] \<and> action \<noteq> drama \<longrightarrow>
        spec_genre_weight ws rs [m1, m2, m3] drama < spec_genre_weight ws rs [m1, m2, m3] action \<and>
        rankedGenres ws rs [m1, m2, m3] = [action, drama])"
proof (intro conjI)
  show "map_of (genre_weights ws rs movies) g = (if W g = 0 then None else Some (W g))"
    unfolding W_def by (rule map_of_genre_weights)
  show "distinct R" unfolding R_def by (rule ranked_distinct)
  show "length R = min 2 (card {g. 0 < W g})" unfolding R_def W_def by (rule ranked_length)
  show "\<forall>g\<in>set R. 0 < W g" unfolding R_def W_def by (blast intro: ranked_positive)
  show "\<forall>g\<in>set R. \<forall>g'. g' \<notin> set R \<longrightarrow> W g' \<le> W g"
    unfolding R_def W_def by (blast intro: ranked_above_rest)
  show "sorted_wrt (\<lambda>a b. W b \<le> W a) R" unfolding R_def W_def by (rule ranked_sorted)
  show "rs (movie_id m1) = Some 5 \<and> rs (movie_id m2) = Some 5 \<and>
      genre_ids m1 = Some [action] \<and> genre_ids m2 = Some [action] \<and>
      ws (movie_id m3) = Some Watchlist \<and> genre_ids m3 = Some [drama] \<and> action \<noteq> drama \<longrightarrow>
        spec_genre_weight ws rs [m1, m2, m3] drama < spec_genre_weight ws rs [m1, m2, m3] action \<and>
        rankedGenres ws rs [m1, m2, m3] = [action, drama]"
  proof (intro impI, elim conjE)
    assume h: "rs (movie_id m1) = Some 5" "rs (movie_id m2) = Some 5"
      "genre_ids m1 = Some [action]" "genre_ids m2 = Some [action]"
      "ws (movie_id m3) = Some Watchlist" "genre_ids m3 = Some [drama]" "action \<noteq> drama"
    from action_drama [where ws = ws and rs = rs, OF h]
    show "spec_genre_weight ws rs [m1, m2, m3] drama < spec_genre_weight ws rs [m1, m2, m3] action \<and>
        rankedGenres ws rs [m1, m2, m3] = [action, drama]"
      by auto
  qed
qed

theorem genre_ranking_witness:
  "rankedGenres [3 \<mapsto> Watchlist] [1 \<mapsto> 5, 2 \<mapsto> 5] example_action_drama = [28, 18] \<and>
   spec_genre_weight [3 \<mapsto> Watchlist] [1 \<mapsto> 5, 2 \<mapsto> 5] example_action_drama 18
     < spec_genre_weight [3 \<mapsto> Watchlist] [1 \<mapsto> 5, 2 \<mapsto> 5] example_action_drama 28 \<and>
   map_of (genre_weights [3 \<mapsto> Watchlist] [1 \<mapsto> 5, 2 \<mapsto> 5] example_action_drama) 28 = Some 4 \<and>
   map_of (genre_weights [3 \<mapsto> Watchlist] [1 \<mapsto> 5, 2 \<mapsto> 5] example_action_drama) 18 = Some 1"
proof -
  let ?ws = "[3 \<mapsto> Watchlist] :: rat \<rightharpoonup> WatchState"
  let ?rs = "[1 \<mapsto> 5, 2 \<mapsto> 5] :: rat \<rightharpoonup> rat"
  let ?m1 = "\<lparr>movie_id = 1, title = ''Action one'', genre_ids = Some [28]\<rparr>"
  let ?m2 = "\<lparr>movie_id = 2, title = ''Action two'', genre_ids = Some [28]\<rparr>"
  let ?m3 = "\<lparr>movie_id = 3, title = ''Drama'', genre_ids = Some [18]\<rparr>"
  have h: "?rs (movie_id ?m1) = Some 5 \<and> ?rs (movie_id ?m2) = Some 5 \<and>
      genre_ids ?m1 = Some [28] \<and> genre_ids ?m2 = Some [28] \<and>
      ?ws (movie_id ?m3) = Some Watchlist \<and> genre_ids ?m3 = Some [18] \<and> (28::nat) \<noteq> 18"
    by simp
  have w28: "spec_genre_weight ?ws ?rs example_action_drama 28 = 4"
    and w18: "spec_genre_weight ?ws ?rs example_action_drama 18 = 1"
    by (simp_all add: spec_genre_weight_def spec_weight_def example_action_drama_def)
  note t = genre_ranking [of ?ws ?rs example_action_drama _ ?m1 ?m2 28 ?m3 18]
  from t [of 28] w28
  have a: "map_of (genre_weights ?ws ?rs example_action_drama) 28 = Some 4" by simp
  from t [of 18] w18
  have b: "map_of (genre_weights ?ws ?rs example_action_drama) 18 = Some 1" by simp
  from t [of 28] h
  have "rankedGenres ?ws ?rs [?m1, ?m2, ?m3] = [28, 18]" by blast
  then have c: "rankedGenres ?ws ?rs example_action_drama = [28, 18]"
    by (simp only: example_action_drama_def)
  from a b c w28 w18 show ?thesis by simp
qed


subsection \<open>The fallback\<close>

lemma no_ranked_genre:
  "rankedGenres ws rs movies = [] \<longleftrightarrow> (\<forall>g. spec_genre_weight ws rs movies g = 0)"
proof -
  have fin: "finite {g. 0 < spec_genre_weight ws rs movies g}"
    unfolding keys_genre_weights [symmetric] by simp
  have "rankedGenres ws rs movies = [] \<longleftrightarrow> length (rankedGenres ws rs movies) = 0"
    by simp
  also have "\<dots> \<longleftrightarrow> card {g. 0 < spec_genre_weight ws rs movies g} = 0"
    by (simp only: ranked_length) auto
  also have "\<dots> \<longleftrightarrow> {g. 0 < spec_genre_weight ws rs movies g} = {}"
    using fin by simp
  finally show ?thesis by auto
qed

text \<open>
  Without credentials, or when no genre has positive weight, the recommendations are the
  first eight movies of the browse set that are untracked or watchlisted.
\<close>

lemma fallback_without_catalog:
  assumes "\<not> has_credentials \<or> (\<forall>g. spec_genre_weight ws rs movies g = 0)"
  shows "loadRecommendations has_credentials discover movies ws rs =
     take 8 (filter (\<lambda>movie. ws (movie_id movie) = None \<or>
                             ws (movie_id movie) = Some Watchlist) movies)"
  using assms by (auto simp: loadRecommendations_def Let_def no_ranked_genre)

text \<open>When the catalog query throws, they are the first eight movies, tracked or not.\<close>

lemma fallback_on_failure:
  assumes "has_credentials" and "rankedGenres ws rs movies \<noteq> []"
    and "discover (rankedGenres ws rs movies) = Throws"
  shows "loadRecommendations has_credentials discover movies ws rs = take 8 movies"
  using assms by (simp add: loadRecommendations_def Let_def)

text \<open>
  C7. With credentials configured, the sample movies as the browse set, the first of
  them marked watched and the catalog query failing, the recommendations are the three
  sample movies, the watched one among them: the \<^verbatim>\<open>catch\<close> branch does not apply the
  filter that the branch for missing credentials applies.
\<close>

theorem catch_branch_keeps_watched:
  "loadRecommendations True (\<lambda>genres. Throws) fallbackMovies [90001 \<mapsto> Watched] Map.empty
     = fallbackMovies \<and>
   take 8 (filter (\<lambda>movie. [90001 \<mapsto> Watched] (movie_id movie) = None \<or>
                           [90001 \<mapsto> Watched] (movie_id movie) = Some Watchlist) fallbackMovies)
     = tl fallbackMovies"
proof -
  have "rankedGenres [90001 \<mapsto> Watched] Map.empty fallbackMovies = [18, 53]"
    by (simp add: rankedGenres_def genre_weights_def genre_reducer_def fallbackMovies_def
        add_weight_def weight_in_def Object_entries_def Let_def)
  then have "loadRecommendations True (\<lambda>genres. Throws) fallbackMovies [90001 \<mapsto> Watched] Map.empty
      = take 8 fallbackMovies"
    by (intro fallback_on_failure) simp_all
  then show ?thesis by (simp add: fallbackMovies_def)
qed

theorem catch_branch_keeps_watched_witness:
  "\<lparr>movie_id = 90001, title = ''North Star Signal'', genre_ids = Some [53, 18]\<rparr>
     \<in> set (loadRecommendations True (\<lambda>genres. Throws) fallbackMovies [90001 \<mapsto> Watched] Map.empty)"
  using catch_branch_keeps_watched by (simp add: fallbackMovies_def)

end
